theory Spec2Isabelle
  imports Main "HOL-Library.Product_Lexorder"
begin

section \<open>The fixture generator of \<^verbatim>\<open>briscas.py\<close>\<close>

text \<open>
  A shallow embedding of \<^verbatim>\<open>generar_fixture\<close> (the circle method for round-robin
  schedules).  Python integers are \<open>int\<close>, labels are \<open>string\<close>, a row of the fixture is
  the 5-tuple \<open>(ronda, mesa, local, visita, nota)\<close> of the source, and every \<^verbatim>\<open>raise\<close>
  (the two \<^verbatim>\<open>ValueError\<close>s of the validation and the \<^verbatim>\<open>IndexError\<close> of an
  out-of-range subscript) is a value of the type \<open>error\<close>.
\<close>

subsection \<open>Data\<close>

datatype error = ValueError string | IndexError

type_synonym fila = "int \<times> int \<times> string \<times> string \<times> string"

definition BYE_LABEL :: string where
  "BYE_LABEL = ''DESCANSA''"

definition ronda_de :: "fila \<Rightarrow> int" where
  "ronda_de x = fst x"

definition mesa_de :: "fila \<Rightarrow> int" where
  "mesa_de x = fst (snd x)"

definition local_de :: "fila \<Rightarrow> string" where
  "local_de x = fst (snd (snd x))"

definition visita_de :: "fila \<Rightarrow> string" where
  "visita_de x = fst (snd (snd (snd x)))"

definition nota_de :: "fila \<Rightarrow> string" where
  "nota_de x = snd (snd (snd (snd x)))"

subsection \<open>Python primitives\<close>

text \<open>\<^verbatim>\<open>xs[i]\<close>: a negative subscript counts from the end, anything out of range raises.\<close>

definition py_get :: "'a list \<Rightarrow> int \<Rightarrow> error + 'a" where
  "py_get xs i =
     (let len = int (length xs); j = (if i < 0 then len + i else i)
      in if 0 \<le> j \<and> j < len then Inr (xs ! nat j) else Inl IndexError)"

text \<open>\<^verbatim>\<open>str(i)\<close> for an integer: its decimal digits, with a sign when negative.\<close>

definition digito :: "nat \<Rightarrow> char" where
  "digito d = char_of (48 + d)"

fun digitos :: "nat \<Rightarrow> string" where
  "digitos k = (if k < 10 then [digito k] else digitos (k div 10) @ [digito (k mod 10)])"

declare digitos.simps [simp del]

definition str_int :: "int \<Rightarrow> string" where
  "str_int i = (if i < 0 then CHR ''-'' # digitos (nat (- i)) else digitos (nat i))"

text \<open>\<^verbatim>\<open>[f"E{i}" for i in range(1, n + 1)]\<close>\<close>

definition nombres_por_defecto :: "int \<Rightarrow> string list" where
  "nombres_por_defecto n = map (\<lambda>i. ''E'' @ str_int i) [1..n]"

subsection \<open>The first leg\<close>

text \<open>
  \<^verbatim>\<open>pares = [(work[i], work[-(i + 1)]) for i in range(mitad)]\<close>, over the list of the
  subscripts \<open>i\<close>.
\<close>

fun pares_de :: "string list \<Rightarrow> int list \<Rightarrow> error + (string \<times> string) list" where
  "pares_de work [] = Inr []"
| "pares_de work (i # is) =
     (case py_get work i of
        Inl e \<Rightarrow> Inl e
      | Inr a \<Rightarrow>
          (case py_get work (- (i + 1)) of
             Inl e \<Rightarrow> Inl e
           | Inr b \<Rightarrow>
               (case pares_de work is of
                  Inl e \<Rightarrow> Inl e
                | Inr ps \<Rightarrow> Inr ((a, b) # ps))))"

text \<open>The body of \<^verbatim>\<open>for a, b in pares\<close>: the row appended for one pair.\<close>

definition fila_de :: "bool \<Rightarrow> string \<Rightarrow> int \<Rightarrow> int \<Rightarrow> string \<times> string \<Rightarrow> fila" where
  "fila_de balance_home_away bye_label r mesa p =
     (let a = fst p; b = snd p in
      if a = bye_label \<or> b = bye_label then
        (let descansa = (if b = bye_label then a else b)
         in (r, mesa, descansa, '''', ''DESCANSA''))
      else if balance_home_away \<and> r mod 2 = 0 then (r, mesa, b, a, '''')
      else (r, mesa, a, b, ''''))"

text \<open>The inner loop, with its counter \<^verbatim>\<open>mesa\<close> and the accumulated \<^verbatim>\<open>filas\<close>.\<close>

fun mesas_loop ::
  "bool \<Rightarrow> string \<Rightarrow> int \<Rightarrow> (string \<times> string) list \<Rightarrow> int \<Rightarrow> fila list \<Rightarrow> fila list" where
  "mesas_loop bal bye r [] mesa filas = filas"
| "mesas_loop bal bye r (p # ps) mesa filas =
     mesas_loop bal bye r ps (mesa + 1) (filas @ [fila_de bal bye r mesa p])"

text \<open>
  The rotation that keeps the first entry fixed:
  \<^verbatim>\<open>fijo = work[0]; cola = work[1:]; work = [fijo] + [cola[-1]] + cola[:-1]\<close>.
\<close>

definition rotar :: "string list \<Rightarrow> error + string list" where
  "rotar work =
     (case py_get work 0 of
        Inl e \<Rightarrow> Inl e
      | Inr fijo \<Rightarrow>
          (let cola = drop 1 work in
           case py_get cola (- 1) of
             Inl e \<Rightarrow> Inl e
           | Inr ultimo \<Rightarrow> Inr ([fijo] @ [ultimo] @ take (length cola - 1) cola)))"

text \<open>The outer loop \<^verbatim>\<open>for r in range(1, rondas + 1)\<close>, over the list of the rounds left.\<close>

fun ida_loop ::
  "bool \<Rightarrow> string \<Rightarrow> int \<Rightarrow> int list \<Rightarrow> string list \<Rightarrow> fila list \<Rightarrow> error + fila list" where
  "ida_loop bal bye mitad [] work filas = Inr filas"
| "ida_loop bal bye mitad (r # rs) work filas =
     (case pares_de work [0..mitad - 1] of
        Inl e \<Rightarrow> Inl e
      | Inr pares \<Rightarrow>
          (let filas' = mesas_loop bal bye r pares 1 filas in
           case rotar work of
             Inl e \<Rightarrow> Inl e
           | Inr work' \<Rightarrow> ida_loop bal bye mitad rs work' filas'))"

subsection \<open>The second leg and the whole function\<close>

text \<open>The body of \<^verbatim>\<open>for (r, mesa, local, visita, nota) in filas\<close>.\<close>

definition fila_vuelta :: "int \<Rightarrow> fila \<Rightarrow> fila" where
  "fila_vuelta rondas x =
     (case x of (r, mesa, local, visita, nota) \<Rightarrow>
        (let r2 = r + rondas in
         if nota = ''DESCANSA'' then (r2, mesa, local, '''', ''DESCANSA'')
         else (r2, mesa, visita, local, '''')))"

fun vuelta_loop :: "int \<Rightarrow> fila list \<Rightarrow> fila list \<Rightarrow> fila list" where
  "vuelta_loop rondas [] vuelta = vuelta"
| "vuelta_loop rondas (x # xs) vuelta = vuelta_loop rondas xs (vuelta @ [fila_vuelta rondas x])"

text \<open>\<^verbatim>\<open>names[:] if names else [...]\<close>: an absent and an empty list both give the default.\<close>

definition equipos_iniciales :: "int \<Rightarrow> string list option \<Rightarrow> string list" where
  "equipos_iniciales n names =
     (case names of
        None \<Rightarrow> nombres_por_defecto n
      | Some ns \<Rightarrow> if ns \<noteq> [] then ns else nombres_por_defecto n)"

text \<open>
  \<^verbatim>\<open>filas.sort(key=lambda x: (x[0], x[1]))\<close> is a stable sort on the pair
  \<open>(ronda, mesa)\<close>, compared lexicographically; \<open>sort_key\<close> is the stable insertion sort.
\<close>

definition clave :: "fila \<Rightarrow> int \<times> int" where
  "clave x = (fst x, fst (snd x))"

definition generar_fixture ::
  "int \<Rightarrow> string list option \<Rightarrow> bool \<Rightarrow> bool \<Rightarrow> string \<Rightarrow> error + fila list" where
  "generar_fixture n names double_round balance_home_away bye_label =
     (if n < 2 then Inl (ValueError ''Se requieren al menos 2 equipos.'')
      else if (case names of None \<Rightarrow> False | Some ns \<Rightarrow> int (length ns) \<noteq> n)
      then Inl (ValueError ''Si usas nombres personalizados, deben ser exactamente n.'')
      else
        (let equipos0 = equipos_iniciales n names;
             impar = (n mod 2 = 1);
             equipos = (if impar then equipos0 @ [bye_label] else equipos0);
             n1 = (if impar then n + 1 else n);
             rondas = n1 - 1;
             mitad = n1 div 2;
             work = equipos
         in case ida_loop balance_home_away bye_label mitad [1..rondas] work [] of
              Inl e \<Rightarrow> Inl e
            | Inr filas \<Rightarrow>
                (let filas2 = (if double_round
                               then filas @ vuelta_loop rondas filas []
                               else filas)
                 in Inr (sort_key clave filas2))))"

subsection \<open>Closed forms used in the proofs\<close>

text \<open>The rotation as a total function: it agrees with \<open>rotar\<close> on every list of at least two
  entries (lemma \<open>rotar_eq\<close>).\<close>

definition rotar_puro :: "'a list \<Rightarrow> 'a list" where
  "rotar_puro w = hd w # last (tl w) # butlast (tl w)"

text \<open>The working sequence \<^verbatim>\<open>work\<close> at the start of round \<open>k + 1\<close>: \<open>k\<close> rotations of the initial one.\<close>

definition trabajo :: "nat \<Rightarrow> 'a list \<Rightarrow> 'a list" where
  "trabajo k ws = (rotar_puro ^^ k) ws"

text \<open>The pair seated at table \<open>i + 1\<close> in round \<open>k + 1\<close>.\<close>

definition pareja :: "'a list \<Rightarrow> nat \<Rightarrow> nat \<Rightarrow> 'a \<times> 'a" where
  "pareja ws k i = (trabajo k ws ! i, trabajo k ws ! (length ws - 1 - i))"

text \<open>The row written for that pair.\<close>

definition fila_en :: "bool \<Rightarrow> string \<Rightarrow> string list \<Rightarrow> nat \<times> nat \<Rightarrow> fila" where
  "fila_en bal bye ws ki = fila_de bal bye (int (fst ki) + 1) (int (snd ki) + 1) (pareja ws (fst ki) (snd ki))"

text \<open>All rows of the first leg, round by round and table by table.\<close>

definition ida_filas :: "bool \<Rightarrow> string \<Rightarrow> string list \<Rightarrow> fila list" where
  "ida_filas bal bye ws =
     map (fila_en bal bye ws) (List.product [0..<length ws - 1] [0..<length ws div 2])"

text \<open>The padded list \<^verbatim>\<open>equipos\<close> after the \<^verbatim>\<open>if impar\<close> block.\<close>

definition equipos_de :: "int \<Rightarrow> string list option \<Rightarrow> string \<Rightarrow> string list" where
  "equipos_de n names bye_label =
     (if n mod 2 = 1 then equipos_iniciales n names @ [bye_label] else equipos_iniciales n names)"

text \<open>The rows of the whole fixture for a padded list \<open>ws\<close>.\<close>

definition filas_de :: "bool \<Rightarrow> bool \<Rightarrow> string \<Rightarrow> string list \<Rightarrow> fila list" where
  "filas_de double_round bal bye ws =
     (if double_round
      then ida_filas bal bye ws @ map (fila_vuelta (int (length ws) - 1)) (ida_filas bal bye ws)
      else ida_filas bal bye ws)"

text \<open>The inputs that pass the two validation checks.\<close>

definition longitud_ok :: "int \<Rightarrow> string list option \<Rightarrow> bool" where
  "longitud_ok n names = (2 \<le> n \<and> (case names of None \<Rightarrow> True | Some ns \<Rightarrow> int (length ns) = n))"

text \<open>
  Where the entry that starts at index \<open>j\<close> sits after \<open>k\<close> rotations of a list of \<open>N + 1\<close>
  entries: index 0 stays, the others move one place to the right and wrap from \<open>N\<close> to 1.
\<close>

definition posicion :: "nat \<Rightarrow> nat \<Rightarrow> nat \<Rightarrow> nat" where
  "posicion N k j = (if j = 0 then 0 else if j + k \<le> N then j + k else j + k - N)"

subsection \<open>The vocabulary of the claims\<close>

text \<open>
  The numbers of rounds and of tables of a single round-robin, as the source computes them
  from \<open>n\<close> after the padding: \<^verbatim>\<open>rondas = n - 1\<close> and \<^verbatim>\<open>mitad = n // 2\<close>.
\<close>

definition rondas_de :: "int \<Rightarrow> int" where
  "rondas_de n = (if n mod 2 = 1 then n + 1 else n) - 1"

definition mesas_de :: "int \<Rightarrow> int" where
  "mesas_de n = (if n mod 2 = 1 then n + 1 else n) div 2"

definition rondas_totales :: "int \<Rightarrow> bool \<Rightarrow> int" where
  "rondas_totales n double_round = (if double_round then 2 * rondas_de n else rondas_de n)"

text \<open>
  The second leg as the specification words it: the round moves by the number of rounds of
  the first leg, the table stays, home and away are swapped, and a BYE row keeps its home,
  its empty away and its note.  It is compared with \<open>fila_vuelta\<close>, which is the source.
\<close>

definition espejo_spec :: "int \<Rightarrow> fila \<Rightarrow> fila" where
  "espejo_spec rondas x =
     (if nota_de x = ''DESCANSA''
      then (ronda_de x + rondas, mesa_de x, local_de x, '''', nota_de x)
      else (ronda_de x + rondas, mesa_de x, visita_de x, local_de x, nota_de x))"

text \<open>
  The inputs the specification calls valid: they pass the validation, the labels of the
  participants are pairwise different, and the bye label is not one of them.
\<close>

definition entrada_valida :: "int \<Rightarrow> string list option \<Rightarrow> string \<Rightarrow> bool" where
  "entrada_valida n names bye_label =
     (longitud_ok n names \<and> distinct (equipos_iniciales n names) \<and>
      bye_label \<notin> set (equipos_iniciales n names))"

text \<open>The number a string of decimal digits stands for; it shows that \<open>digitos\<close> is injective.\<close>

definition valor :: "string \<Rightarrow> nat" where
  "valor s = foldl (\<lambda>a c. 10 * a + (of_char c - 48)) 0 s"

text \<open>A real match with \<open>a\<close> at home and \<open>b\<close> away: a BYE row has no away side.\<close>

definition enfrenta :: "string \<Rightarrow> string \<Rightarrow> fila \<Rightarrow> bool" where
  "enfrenta a b x = (nota_de x \<noteq> ''DESCANSA'' \<and> local_de x = a \<and> visita_de x = b)"

text \<open>
  A participant \<open>p\<close> of the padded list sits at the table of a row: it is the home side, or
  the away side of a match, or the bye, whose table is the BYE row.
\<close>

definition ocupa :: "string \<Rightarrow> string \<Rightarrow> fila \<Rightarrow> bool" where
  "ocupa bye_label p x =
     (p = local_de x \<or> (if nota_de x = ''DESCANSA'' then p = bye_label else p = visita_de x))"

text \<open>The label \<open>p\<close> is written in a row as one of its sides (a BYE row has no away side).\<close>

definition figura :: "string \<Rightarrow> fila \<Rightarrow> bool" where
  "figura p x = (p = local_de x \<or> (nota_de x \<noteq> ''DESCANSA'' \<and> p = visita_de x))"

text \<open>
  The relation between a row \<open>b\<close> of the run with \<open>balance_home_away\<close> and the row \<open>u\<close> at
  the same place of the run without it, as the specification words it: same round, table and
  note, the same two sides as a set, the same orientation in an odd round, and in an even
  round the sides of a match swapped.
\<close>

definition fila_balance_spec :: "fila \<Rightarrow> fila \<Rightarrow> bool" where
  "fila_balance_spec b u =
     (ronda_de b = ronda_de u \<and> mesa_de b = mesa_de u \<and> nota_de b = nota_de u \<and>
      {local_de b, visita_de b} = {local_de u, visita_de u} \<and>
      (if ronda_de b mod 2 = 1
       then local_de b = local_de u \<and> visita_de b = visita_de u
       else nota_de b = ''DESCANSA'' \<or>
            (local_de b = visita_de u \<and> visita_de b = local_de u)))"

text \<open>
  The same relation with the parity taken from the round of the first leg that the row comes
  from: the round itself up to \<open>rondas\<close>, and the round less \<open>rondas\<close> in the second leg.
\<close>

definition fila_balance :: "int \<Rightarrow> fila \<Rightarrow> fila \<Rightarrow> bool" where
  "fila_balance rondas b u =
     (ronda_de b = ronda_de u \<and> mesa_de b = mesa_de u \<and> nota_de b = nota_de u \<and>
      {local_de b, visita_de b} = {local_de u, visita_de u} \<and>
      (if (if ronda_de b \<le> rondas then ronda_de b else ronda_de b - rondas) mod 2 = 1
       then local_de b = local_de u \<and> visita_de b = visita_de u
       else nota_de b = ''DESCANSA'' \<or>
            (local_de b = visita_de u \<and> visita_de b = local_de u)))"

subsection \<open>The function over a store\<close>

text \<open>
  The same function over a store of list objects, to see what it does to the list its caller
  passes.  The store holds the lists of labels; an address is an index into it, and a new
  list gets the next free index.  The lists that can share an object with \<^verbatim>\<open>names\<close> are
  \<^verbatim>\<open>equipos\<close> (made by \<^verbatim>\<open>names[:]\<close> or by the comprehension; \<^verbatim>\<open>append\<close> changes it
  in place) and \<^verbatim>\<open>work\<close> (made by \<^verbatim>\<open>equipos[:]\<close>).  The loop only reads \<^verbatim>\<open>work\<close> and
  binds the name to new lists, so it runs on the value; \<^verbatim>\<open>filas\<close> and \<^verbatim>\<open>vuelta\<close> are new
  lists of rows.
\<close>

type_synonym almacen = "string list list"

definition nueva_lista :: "almacen \<Rightarrow> string list \<Rightarrow> almacen \<times> nat" where
  "nueva_lista h xs = (h @ [xs], length h)"

definition append_en :: "almacen \<Rightarrow> nat \<Rightarrow> string \<Rightarrow> almacen" where
  "append_en h a x = h[a := h ! a @ [x]]"

definition generar_fixture_ref ::
  "almacen \<Rightarrow> int \<Rightarrow> nat option \<Rightarrow> bool \<Rightarrow> bool \<Rightarrow> string \<Rightarrow> almacen \<times> (error + fila list)" where
  "generar_fixture_ref h n names double_round balance_home_away bye_label =
     (if n < 2 then (h, Inl (ValueError ''Se requieren al menos 2 equipos.''))
      else if (case names of None \<Rightarrow> False | Some a \<Rightarrow> int (length (h ! a)) \<noteq> n)
      then (h, Inl (ValueError ''Si usas nombres personalizados, deben ser exactamente n.''))
      else
        (let (h1, equipos) =
               (case names of
                  None \<Rightarrow> nueva_lista h (nombres_por_defecto n)
                | Some a \<Rightarrow>
                    if h ! a \<noteq> [] then nueva_lista h (h ! a)
                    else nueva_lista h (nombres_por_defecto n));
             impar = (n mod 2 = 1);
             h2 = (if impar then append_en h1 equipos bye_label else h1);
             n1 = (if impar then n + 1 else n);
             rondas = n1 - 1;
             mitad = n1 div 2;
             (h3, work) = nueva_lista h2 (h2 ! equipos)
         in (h3,
             case ida_loop balance_home_away bye_label mitad [1..rondas] (h3 ! work) [] of
               Inl e \<Rightarrow> Inl e
             | Inr filas \<Rightarrow>
                 (let filas2 = (if double_round
                                then filas @ vuelta_loop rondas filas []
                                else filas)
                  in Inr (sort_key clave filas2)))))"

section \<open>The loops in closed form\<close>

lemma py_get_nat: "i < length xs \<Longrightarrow> py_get xs (int i) = Inr (xs ! i)"
  by (simp add: py_get_def)

lemma py_get_neg:
  "i < length xs \<Longrightarrow> py_get xs (- (int i + 1)) = Inr (xs ! (length xs - 1 - i))"
  by (auto simp add: py_get_def Let_def nat_diff_distrib' intro!: arg_cong[where f="nth xs"])

lemma pares_de_desde:
  "h \<le> length w \<Longrightarrow> j \<le> h \<Longrightarrow>
   pares_de w [int j..int h - 1] = Inr (map (\<lambda>i. (w ! i, w ! (length w - 1 - i))) [j..<h])"
proof (induction "h - j" arbitrary: j)
  case 0
  then show ?case by simp
next
  case (Suc d)
  then have jh: "j < h" by simp
  then have up: "[int j..int h - 1] = int j # [int j + 1..int h - 1]"
    by (simp add: upto_rec1)
  have "h - Suc j = d" "Suc j \<le> h" using Suc.hyps(2) jh by simp_all
  from Suc.hyps(1)[of "Suc j"] this Suc.prems(1)
  have ih: "pares_de w [int j + 1..int h - 1] =
        Inr (map (\<lambda>i. (w ! i, w ! (length w - 1 - i))) [Suc j..<h])"
    by (simp add: add.commute)
  have jl: "j < length w" using jh Suc.prems by simp
  show ?case
    unfolding up pares_de.simps py_get_nat[OF jl] py_get_neg[OF jl] ih upt_conv_Cons[OF jh]
    by simp
qed

lemma mesas_loop_eq:
  "mesas_loop bal bye r ps mesa filas =
     filas @ map (\<lambda>t. fila_de bal bye r (mesa + int t) (ps ! t)) [0..<length ps]"
proof (induction ps arbitrary: mesa filas)
  case Nil
  then show ?case by simp
next
  case (Cons p ps)
  have "map (\<lambda>t. fila_de bal bye r (mesa + int t) ((p # ps) ! t)) [0..<length (p # ps)] =
        fila_de bal bye r mesa p # map (\<lambda>t. fila_de bal bye r (mesa + 1 + int t) (ps ! t)) [0..<length ps]"
    by (simp add: upt_rec[of 0 "Suc _"] map_Suc_upt[symmetric] add.assoc del: upt.simps upt_Suc)
  then show ?case using Cons[of "mesa + 1"] by simp
qed

lemma rotar_eq: "2 \<le> length w \<Longrightarrow> rotar w = Inr (rotar_puro w)"
  apply (cases w) apply simp
  subgoal for a cola
    apply (cases cola rule: rev_cases) apply simp
    apply (simp add: rotar_def rotar_puro_def py_get_def)
    done
  done

lemma length_rotar_puro: "2 \<le> length w \<Longrightarrow> length (rotar_puro w) = length w"
  by (cases w) (auto simp: rotar_puro_def)

lemma length_trabajo: "2 \<le> length ws \<Longrightarrow> length (trabajo k ws) = length ws"
  by (induction k) (simp_all add: trabajo_def length_rotar_puro)

lemma pares_de_todo:
  "h \<le> length w \<Longrightarrow>
   pares_de w [0..int h - 1] = Inr (map (\<lambda>i. (w ! i, w ! (length w - 1 - i))) [0..<h])"
  using pares_de_desde[of h w 0] by simp

lemma trabajo_Suc: "trabajo (Suc k) ws = rotar_puro (trabajo k ws)"
  by (simp add: trabajo_def)

lemma filas_ronda:
  assumes "2 \<le> length ws" "h \<le> length ws"
  shows "mesas_loop bal bye (int k + 1)
           (map (\<lambda>i. (trabajo k ws ! i, trabajo k ws ! (length (trabajo k ws) - 1 - i))) [0..<h]) 1 filas =
         filas @ map (fila_en bal bye ws) (map (Pair k) [0..<h])"
  by (simp add: mesas_loop_eq fila_en_def pareja_def length_trabajo[OF assms(1)] add.commute)

lemma ida_loop_desde:
  assumes m: "2 \<le> length ws"
  shows "k \<le> length ws - 1 \<Longrightarrow>
     ida_loop bal bye (int (length ws div 2)) [int k + 1..int (length ws) - 1] (trabajo k ws) filas =
     Inr (filas @ map (fila_en bal bye ws)
            (List.product [k..<length ws - 1] [0..<length ws div 2]))"
proof (induction "length ws - 1 - k" arbitrary: k filas)
  case 0
  then have "k = length ws - 1" by simp
  then show ?case using m by (simp add: of_nat_diff)
next
  case (Suc d)
  let ?m = "length ws" and ?h = "length ws div 2" and ?w = "trabajo k ws"
  from Suc have k: "k < ?m - 1" by simp
  then have up: "[int k + 1..int ?m - 1] = (int k + 1) # [int (Suc k) + 1..int ?m - 1]"
    by (subst upto_rec1) (simp_all add: add.commute)
  have lw: "length ?w = ?m" by (rule length_trabajo[OF m])
  have h: "?h \<le> length ?w" using lw by simp
  have h': "?h \<le> ?m" by simp
  have lw2: "2 \<le> length ?w" using lw m by simp
  have d: "d = ?m - 1 - Suc k" "Suc k \<le> ?m - 1" using Suc.hyps(2) k by simp_all
  note ih = Suc.hyps(1)[OF d]
  have prod: "List.product [k..<?m - 1] [0..<?h] =
      map (Pair k) [0..<?h] @ List.product [Suc k..<?m - 1] [0..<?h]"
    unfolding upt_conv_Cons[OF k] by simp
  show ?case
    unfolding up ida_loop.simps pares_de_todo[OF h] sum.case Let_def rotar_eq[OF lw2]
      filas_ronda[OF m h'] trabajo_Suc[symmetric] ih prod
    by simp
qed

lemma trabajo_0: "trabajo 0 ws = ws"
  by (simp add: trabajo_def)

lemma ida_loop_eq:
  assumes m: "2 \<le> length ws"
  shows "ida_loop bal bye (int (length ws) div 2) [1..int (length ws) - 1] ws [] =
     Inr (ida_filas bal bye ws)"
  using ida_loop_desde[OF m, of 0 bal bye "[]"]
  by (simp add: trabajo_0 ida_filas_def zdiv_int)

lemma vuelta_loop_eq: "vuelta_loop rondas xs vuelta = vuelta @ map (fila_vuelta rondas) xs"
  by (induction xs arbitrary: vuelta) simp_all

lemma length_nombres_por_defecto: "length (nombres_por_defecto n) = nat n"
  by (simp add: nombres_por_defecto_def)

lemma length_equipos_iniciales:
  "longitud_ok n names \<Longrightarrow> length (equipos_iniciales n names) = nat n"
  by (auto simp: longitud_ok_def equipos_iniciales_def length_nombres_por_defecto
      split: option.splits)

lemma length_equipos_de:
  "longitud_ok n names \<Longrightarrow>
   int (length (equipos_de n names bye)) = (if n mod 2 = 1 then n + 1 else n)"
  by (auto simp: equipos_de_def length_equipos_iniciales longitud_ok_def)

lemma even_length_equipos_de:
  "longitud_ok n names \<Longrightarrow> even (length (equipos_de n names bye))"
proof -
  assume a: "longitud_ok n names"
  have "even (int (length (equipos_de n names bye)))"
    unfolding length_equipos_de[OF a] by presburger
  then show ?thesis by simp
qed

lemma length_equipos_de_ge2:
  "longitud_ok n names \<Longrightarrow> 2 \<le> length (equipos_de n names bye)"
  using length_equipos_de[of n names bye] by (auto simp: longitud_ok_def split: if_splits)

lemma map_product_prod:
  "map (\<lambda>p. (f (fst p), g (snd p))) (List.product xs ys) = List.product (map f xs) (map g ys)"
  by (induction xs) (simp_all add: comp_def)

lemma map_int_upt: "map (\<lambda>k. int k + 1) [0..<R] = [1..int R]"
proof (induction R)
  case 0
  then show ?case by simp
next
  case (Suc R)
  have "[1..int (Suc R)] = [1..int R] @ [int R + 1]"
    by (subst upto_rec2) (simp_all add: add.commute)
  then show ?case using Suc by simp
qed

lemma clave_fila_de: "clave (fila_de bal bye r mesa p) = (r, mesa)"
  by (simp add: clave_def fila_de_def Let_def)

lemma clave_fila_en: "clave (fila_en bal bye ws ki) = (int (fst ki) + 1, int (snd ki) + 1)"
  by (simp add: fila_en_def clave_fila_de)

lemma claves_ida:
  "map clave (ida_filas bal bye ws) =
   List.product [1..int (length ws) - 1] [1..int (length ws div 2)]"
proof -
  have "map clave (ida_filas bal bye ws) =
      map (\<lambda>p. (int (fst p) + 1, int (snd p) + 1))
        (List.product [0..<length ws - 1] [0..<length ws div 2])"
    by (simp add: ida_filas_def comp_def clave_fila_en)
  also have "\<dots> = List.product [1..int (length ws - 1)] [1..int (length ws div 2)]"
    using map_product_prod[of "\<lambda>k. int k + 1" "\<lambda>k. int k + 1"
        "[0..<length ws - 1]" "[0..<length ws div 2]"]
    by (simp only: map_int_upt)
  finally have eq: "map clave (ida_filas bal bye ws) =
      List.product [1..int (length ws - 1)] [1..int (length ws div 2)]" .
  show ?thesis
  proof (cases ws)
    case Nil
    then show ?thesis by (simp add: ida_filas_def)
  next
    case (Cons a as)
    then have "int (length ws - 1) = int (length ws) - 1" by simp
    with eq show ?thesis by simp
  qed
qed

lemma map_add_upto: "map (\<lambda>r. r + c) [a..b] = [a + c..b + c]"
proof (induction a b rule: upto.induct)
  case (1 i j)
  show ?case
  proof (cases "i \<le> j")
    case True
    have l: "[i..j] = i # [i + 1..j]" using True by (rule upto_rec1)
    have r: "[i + c..j + c] = (i + c) # [i + c + 1..j + c]"
      using True by (intro upto_rec1) simp
    have "i + 1 + c = i + c + 1" by simp
    with 1[OF True] show ?thesis unfolding l r by simp
  next
    case False
    then show ?thesis by simp
  qed
qed

lemma product_append:
  "List.product (xs @ xs') ys = List.product xs ys @ List.product xs' ys"
  by (induction xs) simp_all

lemma clave_fila_vuelta: "clave (fila_vuelta R x) = (fst (clave x) + R, snd (clave x))"
  by (cases x) (simp add: clave_def fila_vuelta_def Let_def)

lemma claves_vuelta:
  "map clave (map (fila_vuelta R) (ida_filas bal bye ws)) =
   List.product (map (\<lambda>r. r + R) [1..int (length ws) - 1]) [1..int (length ws div 2)]"
proof -
  have "map clave (map (fila_vuelta R) (ida_filas bal bye ws)) =
      map (\<lambda>p. (fst p + R, snd p)) (map clave (ida_filas bal bye ws))"
    by (simp add: comp_def clave_fila_vuelta)
  also have "\<dots> = List.product (map (\<lambda>r. r + R) [1..int (length ws) - 1])
      (map (\<lambda>t. t) [1..int (length ws div 2)])"
    unfolding claves_ida by (rule map_product_prod)
  finally show ?thesis by simp
qed

lemma claves_filas_de:
  "map clave (filas_de dr bal bye ws) =
   List.product [1..(if dr then 2 * (int (length ws) - 1) else int (length ws) - 1)]
     [1..int (length ws div 2)]"
proof (cases dr)
  case False
  then show ?thesis by (simp add: filas_de_def claves_ida)
next
  case True
  let ?R = "int (length ws) - 1"
  have "[1..2 * ?R] = [1..?R] @ map (\<lambda>r. r + ?R) [1..?R]"
  proof (cases "1 \<le> ?R")
    case True
    have "[1..2 * ?R] = [1..?R] @ [?R + 1..2 * ?R]"
      using True by (intro upto_split2) simp_all
    also have "[?R + 1..2 * ?R] = map (\<lambda>r. r + ?R) [1..?R]"
      unfolding map_add_upto by simp
    finally show ?thesis .
  next
    case False
    then show ?thesis by simp
  qed
  then have "List.product [1..2 * ?R] [1..int (length ws div 2)] =
     List.product [1..?R] [1..int (length ws div 2)] @
     List.product (map (\<lambda>r. r + ?R) [1..?R]) [1..int (length ws div 2)]"
    by (simp only: product_append)
  then show ?thesis using True
    by (simp add: filas_de_def claves_ida claves_vuelta del: map_map)
qed

lemma sorted_product:
  fixes xs :: "('a::linorder) list" and ys :: "('b::linorder) list"
  shows "sorted_wrt (<) xs \<Longrightarrow> sorted ys \<Longrightarrow> sorted (List.product xs ys)"
proof (induction xs)
  case Nil
  then show ?case by simp
next
  case (Cons x xs)
  have "sorted (map (Pair x) ys)"
    using Cons.prems(2) by (induction ys) auto
  then show ?case using Cons by (auto simp: sorted_append)
qed

lemma sort_filas_de: "sort_key clave (filas_de dr bal bye ws) = filas_de dr bal bye ws"
  by (rule sort_key_id_if_sorted) (simp add: claves_filas_de sorted_product)

lemma generar_fixture_eq:
  assumes "longitud_ok n names"
  shows "generar_fixture n names dr bal bye = Inr (filas_de dr bal bye (equipos_de n names bye))"
proof -
  let ?ws = "equipos_de n names bye"
  have n2: "\<not> n < 2" and nm: "\<not> (case names of None \<Rightarrow> False | Some ns \<Rightarrow> int (length ns) \<noteq> n)"
    using assms by (auto simp: longitud_ok_def split: option.splits)
  have len: "(if n mod 2 = 1 then n + 1 else n) = int (length ?ws)"
    using length_equipos_de[OF assms] by simp
  have ws: "(if n mod 2 = 1 then equipos_iniciales n names @ [bye] else equipos_iniciales n names) = ?ws"
    by (simp add: equipos_de_def)
  have ida: "ida_loop bal bye (int (length ?ws) div 2) [1..int (length ?ws) - 1] ?ws [] =
      Inr (ida_filas bal bye ?ws)"
    by (rule ida_loop_eq[OF length_equipos_de_ge2[OF assms]])
  show ?thesis
    unfolding generar_fixture_def Let_def if_not_P[OF n2] if_not_P[OF nm] len ws ida sum.case
      vuelta_loop_eq
    using sort_filas_de[of dr bal bye ?ws]
    by (cases dr) (simp_all add: filas_de_def)
qed

section \<open>Validation and totality\<close>

text \<open>
  Claim C6.  \<open>generar_fixture\<close> raises exactly when \<open>n < 2\<close> or a supplied list of names has
  a length other than \<open>n\<close>, and what it raises then is a \<open>ValueError\<close>; on every other
  input it returns a list of rows.  In particular no subscript of the two loops is ever out
  of range: \<open>IndexError\<close> is not a possible outcome.
\<close>

theorem generar_fixture_total:
  "((\<exists>msg. generar_fixture n names dr bal bye = Inl (ValueError msg)) \<longleftrightarrow>
      (n < 2 \<or> (\<exists>ns. names = Some ns \<and> int (length ns) \<noteq> n))) \<and>
   ((\<exists>filas. generar_fixture n names dr bal bye = Inr filas) \<longleftrightarrow>
      (2 \<le> n \<and> (names = None \<or> (\<exists>ns. names = Some ns \<and> int (length ns) = n)))) \<and>
   generar_fixture n names dr bal bye \<noteq> Inl IndexError"
proof (cases "longitud_ok n names")
  case True
  then have v: "2 \<le> n" "names = None \<or> (\<exists>ns. names = Some ns \<and> int (length ns) = n)"
    by (auto simp: longitud_ok_def split: option.splits)
  show ?thesis
    unfolding generar_fixture_eq[OF True] using v by auto
next
  case False
  then have bad: "n < 2 \<or> (\<exists>ns. names = Some ns \<and> int (length ns) \<noteq> n)"
    by (auto simp: longitud_ok_def split: option.splits)
  then have "\<exists>msg. generar_fixture n names dr bal bye = Inl (ValueError msg)"
    by (auto simp: generar_fixture_def)
  then show ?thesis using bad by auto
qed

theorem generar_fixture_total_witness:
  "(\<exists>msg. generar_fixture 1 None False True ''DESCANSA'' = Inl (ValueError msg)) \<and>
   (\<exists>msg. generar_fixture 4 (Some [''A'', ''B'']) False True ''DESCANSA'' = Inl (ValueError msg)) \<and>
   (\<exists>filas. generar_fixture 5 None True True ''DESCANSA'' = Inr filas)"
  using generar_fixture_total[of 1 None False True "''DESCANSA''"]
    generar_fixture_total[of 4 "Some [''A'', ''B'']" False True "''DESCANSA''"]
    generar_fixture_total[of 5 None True True "''DESCANSA''"]
  by simp

section \<open>The circle method\<close>

lemma posicion_le: "j \<le> N \<Longrightarrow> k \<le> N \<Longrightarrow> posicion N k j \<le> N"
  by (auto simp add: posicion_def)

lemma posicion_inj:
  "j1 \<le> N \<Longrightarrow> j2 \<le> N \<Longrightarrow> k < N \<Longrightarrow> posicion N k j1 = posicion N k j2 \<Longrightarrow> j1 = j2"
  by (auto simp add: posicion_def split: if_splits)

lemma suma_posicion:
  assumes "0 < j1" "0 < j2" "j1 \<le> N" "j2 \<le> N" "k < N"
    and "posicion N k j1 + posicion N k j2 = N"
  shows "\<exists>a. j1 + j2 + 2 * k = a * N"
proof -
  have "j1 + j2 + 2 * k = N \<or> j1 + j2 + 2 * k = 2 * N \<or> j1 + j2 + 2 * k = 3 * N"
    using assms by (auto simp: posicion_def split: if_splits)
  then consider (uno) "j1 + j2 + 2 * k = N" | (dos) "j1 + j2 + 2 * k = 2 * N"
    | (tres) "j1 + j2 + 2 * k = 3 * N"
    by blast
  then show ?thesis
  proof cases
    case uno
    then show ?thesis by (intro exI[of _ 1]) simp
  next
    case dos
    then show ?thesis by (intro exI[of _ 2]) simp
  next
    case tres
    then show ?thesis by (intro exI[of _ 3]) simp
  qed
qed

lemma posicion_fijo:
  assumes "0 < j" "j \<le> N" "k < N"
  shows "posicion N k 0 + posicion N k j = N \<longleftrightarrow> j + k = N"
  using assms by (auto simp: posicion_def split: if_splits)

lemma multiplos_impar_aux:
  assumes "odd N" "k < N" and e: "2 * k = 2 * k' + Suc c * N"
  shows False
proof (cases c)
  case 0
  with e have "N = 2 * (k - k')" by simp
  then have "even N" by simp
  with assms(1) show False by simp
next
  case (Suc c')
  with e have "2 * N \<le> 2 * k" by simp
  with assms(2) show False by simp
qed

lemma multiplos_impar:
  assumes "odd N" "k < N" "k' < N"
    and a: "s + 2 * k = a * N" and b: "s + 2 * k' = b * N"
  shows "k = (k'::nat)"
proof -
  have "a = b"
  proof (rule ccontr)
    assume ne: "a \<noteq> b"
    show False
    proof (cases "a < b")
      case True
      then obtain c where c: "b = Suc (a + c)" using less_imp_Suc_add by auto
      have "s + 2 * k' = s + 2 * k + Suc c * N" using a b c by (simp add: algebra_simps)
      then have "2 * k' = 2 * k + Suc c * N" by simp
      then show False by (rule multiplos_impar_aux[OF assms(1,3)])
    next
      case False
      with ne have "b < a" by simp
      then obtain c where c: "a = Suc (b + c)" using less_imp_Suc_add by auto
      have "s + 2 * k = s + 2 * k' + Suc c * N" using a b c by (simp add: algebra_simps)
      then have "2 * k = 2 * k' + Suc c * N" by simp
      then show False by (rule multiplos_impar_aux[OF assms(1,2)])
    qed
  qed
  with a b show ?thesis by simp
qed

lemma encuentro_unico:
  assumes "odd N" "j1 \<le> N" "j2 \<le> N" "j1 \<noteq> j2" "k < N" "k' < N"
    "posicion N k j1 + posicion N k j2 = N" "posicion N k' j1 + posicion N k' j2 = N"
  shows "k = k'"
proof -
  consider (z1) "j1 = 0" "0 < j2" | (z2) "j2 = 0" "0 < j1" | (pos) "0 < j1" "0 < j2"
    using assms(4) by (cases "j1 = 0"; cases "j2 = 0") auto
  then show ?thesis
  proof cases
    case z1
    then show ?thesis
      using posicion_fijo[of j2 N k] posicion_fijo[of j2 N k'] assms by simp
  next
    case z2
    then show ?thesis
      using posicion_fijo[of j1 N k] posicion_fijo[of j1 N k'] assms by (simp add: add.commute)
  next
    case pos
    from suma_posicion[OF pos assms(2,3,5,7)]
    obtain a where a: "j1 + j2 + 2 * k = a * N" by blast
    from suma_posicion[OF pos assms(2,3,6,8)]
    obtain b where b: "j1 + j2 + 2 * k' = b * N" by blast
    show ?thesis by (rule multiplos_impar[OF assms(1,5,6) a b])
  qed
qed

lemma encuentro_existe:
  assumes "odd N" "j1 \<le> N" "j2 \<le> N" "j1 \<noteq> j2"
  shows "\<exists>k<N. posicion N k j1 + posicion N k j2 = N"
proof -
  from assms(1) obtain t where N: "N = 2 * t + 1" by (auto elim: oddE)
  consider (z1) "j1 = 0" | (z2) "j2 = 0"
    | (a) "0 < j1" "0 < j2" "odd (j1 + j2)" "j1 + j2 \<le> N"
    | (b) "0 < j1" "0 < j2" "even (j1 + j2)"
    | (c) "0 < j1" "0 < j2" "odd (j1 + j2)" "N < j1 + j2"
    by (cases "j1 = 0"; cases "j2 = 0"; cases "odd (j1 + j2)"; cases "N < j1 + j2") auto
  then show ?thesis
  proof cases
    case z1
    then show ?thesis using assms(2-) by (intro exI[of _ "N - j2"]) (auto simp: posicion_def)
  next
    case z2
    then show ?thesis using assms(2-) by (intro exI[of _ "N - j1"]) (auto simp: posicion_def)
  next
    case a
    from a(3) obtain q where q: "j1 + j2 = 2 * q + 1" using oddE by blast
    show ?thesis using a(1,2,4) assms(2-) q unfolding N
      by (intro exI[of _ "t - q"]) (auto simp add: posicion_def)
  next
    case b
    from b(3) obtain q where q: "j1 + j2 = 2 * q" using evenE by blast
    show ?thesis using b(1,2) assms(2-) q unfolding N
      by (intro exI[of _ "2 * t + 1 - q"]) (auto simp add: posicion_def)
  next
    case c
    from c(3) obtain q where q: "j1 + j2 = 2 * q + 1" using oddE by blast
    show ?thesis using c(1,2,4) assms(2-) q unfolding N
      by (intro exI[of _ "3 * t + 1 - q"]) (auto simp add: posicion_def)
  qed
qed

lemma rotar_puro_Cons_snoc: "rotar_puro (a # cs @ [z]) = a # z # cs"
  by (simp add: rotar_puro_def)

lemma lista_larga:
  assumes "2 \<le> length w"
  obtains a cs z where "w = a # cs @ [z]"
proof -
  from assms obtain a w' where w: "w = a # w'" "w' \<noteq> []"
    by (cases w) (auto simp: Suc_le_eq)
  then obtain cs z where "w' = cs @ [z]" by (cases w' rule: rev_cases) auto
  with w that show ?thesis by simp
qed

lemma distinct_rotar_puro: "2 \<le> length w \<Longrightarrow> distinct (rotar_puro w) = distinct w"
  by (erule lista_larga) (auto simp: rotar_puro_Cons_snoc)

lemma set_rotar_puro: "2 \<le> length w \<Longrightarrow> set (rotar_puro w) = set w"
  by (erule lista_larga) (auto simp: rotar_puro_Cons_snoc)

lemma distinct_trabajo: "2 \<le> length ws \<Longrightarrow> distinct (trabajo k ws) = distinct ws"
  by (induction k) (simp_all add: trabajo_0 trabajo_Suc distinct_rotar_puro length_trabajo)

lemma set_trabajo: "2 \<le> length ws \<Longrightarrow> set (trabajo k ws) = set ws"
  by (induction k) (simp_all add: trabajo_0 trabajo_Suc set_rotar_puro length_trabajo)

lemma rotar_puro_nth:
  assumes "length w = Suc N" "0 < p" "p \<le> N"
  shows "rotar_puro w ! (if p = N then 1 else Suc p) = w ! p"
proof -
  from assms have "2 \<le> length w" by simp
  then obtain a cs z where w: "w = a # cs @ [z]" by (rule lista_larga)
  with assms(1) have len: "length cs = N - 1" "0 < N" by auto
  from assms(2) obtain p' where p': "p = Suc p'" by (cases p) auto
  show ?thesis
  proof (cases "p = N")
    case True
    then show ?thesis using len p' by (simp add: w rotar_puro_Cons_snoc nth_append)
  next
    case False
    then have "p' < length cs" using assms(3) len p' by simp
    then show ?thesis using False p' by (simp add: w rotar_puro_Cons_snoc nth_append)
  qed
qed

lemma rotar_puro_nth0: "2 \<le> length w \<Longrightarrow> rotar_puro w ! 0 = w ! 0"
  by (erule lista_larga) (simp add: rotar_puro_Cons_snoc)

lemma posicion_Suc:
  assumes "0 < j" "j \<le> N" "Suc k \<le> N"
  shows "posicion N (Suc k) j = (if posicion N k j = N then 1 else Suc (posicion N k j))"
  using assms by (auto simp: posicion_def)

lemma posicion_pos: "0 < j \<Longrightarrow> j \<le> N \<Longrightarrow> k \<le> N \<Longrightarrow> 0 < posicion N k j"
  by (auto simp: posicion_def)

lemma trabajo_nth:
  assumes "length ws = Suc N" "0 < N" "j \<le> N"
  shows "k \<le> N \<Longrightarrow> trabajo k ws ! posicion N k j = ws ! j"
proof (induction k)
  case 0
  then show ?case using assms by (simp add: trabajo_0 posicion_def)
next
  case (Suc k)
  have l2: "2 \<le> length ws" using assms by simp
  have lw: "length (trabajo k ws) = Suc N" using length_trabajo[OF l2] assms(1) by simp
  show ?case
  proof (cases "j = 0")
    case True
    then show ?thesis using Suc lw
      by (simp add: trabajo_Suc posicion_def rotar_puro_nth0)
  next
    case False
    then have j: "0 < j" by simp
    have k: "k \<le> N" using Suc.prems by simp
    show ?thesis
      unfolding trabajo_Suc posicion_Suc[OF j assms(3) Suc.prems]
      using rotar_puro_nth[OF lw posicion_pos[OF j assms(3) k] posicion_le[OF assms(3) k]]
        Suc.IH[OF k] by simp
  qed
qed

lemma pareja_iff:
  assumes len: "length ws = Suc N" and N: "0 < N" and d: "distinct ws"
    and k: "k \<le> N" and i: "i \<le> N" and j1: "j1 \<le> N" and j2: "j2 \<le> N"
  shows "pareja ws k i = (ws ! j1, ws ! j2) \<longleftrightarrow>
         posicion N k j1 = i \<and> posicion N k j2 = N - i"
proof -
  let ?w = "trabajo k ws"
  have l2: "2 \<le> length ws" using len N by simp
  have lw: "length ?w = Suc N" using length_trabajo[OF l2] len by simp
  have dw: "distinct ?w" using distinct_trabajo[OF l2] d by simp
  have n1: "?w ! posicion N k j1 = ws ! j1" by (rule trabajo_nth[OF len N j1 k])
  have n2: "?w ! posicion N k j2 = ws ! j2" by (rule trabajo_nth[OF len N j2 k])
  have p1: "posicion N k j1 < length ?w" using posicion_le[OF j1 k] lw by simp
  have p2: "posicion N k j2 < length ?w" using posicion_le[OF j2 k] lw by simp
  have "pareja ws k i = (ws ! j1, ws ! j2) \<longleftrightarrow>
      ?w ! i = ?w ! posicion N k j1 \<and> ?w ! (N - i) = ?w ! posicion N k j2"
    by (simp add: pareja_def len n1 n2)
  also have "\<dots> \<longleftrightarrow> i = posicion N k j1 \<and> N - i = posicion N k j2"
    using dw p1 p2 i lw by (simp add: nth_eq_iff_index_eq)
  finally show ?thesis by auto
qed

lemma filtro_1:
  assumes "distinct zs" "z0 \<in> set zs" "\<And>z. z \<in> set zs \<Longrightarrow> Q z \<longleftrightarrow> z = z0"
  shows "length (filter Q zs) = 1"
proof -
  have "filter Q zs = filter (\<lambda>z. z = z0) zs"
    by (rule filter_cong) (simp_all add: assms(3))
  also have "\<dots> = [z0]" using assms(1,2) by (induction zs) (auto simp: filter_empty_conv)
  finally show ?thesis by simp
qed

lemma cuenta_1:
  assumes "distinct zs" "z0 \<in> set zs" "\<And>z. z \<in> set zs \<Longrightarrow> P (f z) \<longleftrightarrow> z = z0"
  shows "length (filter P (map f zs)) = 1"
  using filtro_1[OF assms(1,2), of "P \<circ> f"] assms(3) by (simp add: filter_map)

lemma cuenta_0:
  assumes "\<And>z. z \<in> set zs \<Longrightarrow> \<not> P (f z)"
  shows "length (filter P (map f zs)) = 0"
  using assms by (induction zs) auto

lemma mesa_unica:
  assumes "odd N" "p \<le> N" "i < Suc N div 2"
  shows "(p = i \<or> p = N - i) \<longleftrightarrow> i = min p (N - p)"
proof -
  from assms(1) obtain t where N: "N = 2 * t + 1" using oddE by blast
  show ?thesis using assms(2,3) unfolding N by auto
qed

lemma mesa_menor:
  assumes "odd N" "p \<le> N"
  shows "min p (N - p) < Suc N div 2"
proof -
  from assms(1) obtain t where N: "N = 2 * t + 1" using oddE by blast
  show ?thesis using assms(2) unfolding N by auto
qed

lemma par_en_mesa:
  assumes "odd N" "p1 \<le> N" "p2 \<le> N" "i < Suc N div 2"
  shows "(p1 = i \<and> p2 = N - i \<or> p2 = i \<and> p1 = N - i) \<longleftrightarrow>
         (p1 + p2 = N \<and> i = min p1 p2)"
proof -
  from assms(1) obtain t where N: "N = 2 * t + 1" using oddE by blast
  show ?thesis using assms(2-) unfolding N by auto
qed

lemma suma_menor:
  assumes "odd N" "p1 + p2 = N"
  shows "min p1 p2 < Suc N div 2"
proof -
  from assms(1) obtain t where N: "N = 2 * t + 1" using oddE by blast
  show ?thesis using assms(2) unfolding N by auto
qed

text \<open>Two different entries of the initial list meet at exactly one round and table.\<close>

lemma pareja_unica:
  assumes len: "length ws = Suc N" and odd: "odd N" and d: "distinct ws"
    and j1: "j1 \<le> N" and j2: "j2 \<le> N" and ne: "j1 \<noteq> j2"
  shows "length (filter (\<lambda>z. pareja ws (fst z) (snd z) = (ws ! j1, ws ! j2) \<or>
                           pareja ws (fst z) (snd z) = (ws ! j2, ws ! j1))
           (List.product [0..<N] [0..<Suc N div 2])) = 1"
proof -
  have N: "0 < N" using odd by (cases N) auto
  from encuentro_existe[OF odd j1 j2 ne]
  obtain k0 where k0: "k0 < N" "posicion N k0 j1 + posicion N k0 j2 = N" by blast
  let ?i0 = "min (posicion N k0 j1) (posicion N k0 j2)"
  have i0: "?i0 < Suc N div 2" by (rule suma_menor[OF odd k0(2)])
  have mem: "(k0, ?i0) \<in> set (List.product [0..<N] [0..<Suc N div 2])"
    using k0(1) i0 by simp
  have car: "(pareja ws (fst z) (snd z) = (ws ! j1, ws ! j2) \<or>
         pareja ws (fst z) (snd z) = (ws ! j2, ws ! j1)) \<longleftrightarrow> z = (k0, ?i0)"
    if z: "z \<in> set (List.product [0..<N] [0..<Suc N div 2])" for z
  proof -
    obtain k i where zk: "z = (k, i)" by (cases z)
    with z have k: "k < N" and i: "i < Suc N div 2" by auto
    then have kl: "k \<le> N" and il: "i \<le> N" by auto
    have p1: "posicion N k j1 \<le> N" by (rule posicion_le[OF j1 kl])
    have p2: "posicion N k j2 \<le> N" by (rule posicion_le[OF j2 kl])
    have "(pareja ws k i = (ws ! j1, ws ! j2) \<or> pareja ws k i = (ws ! j2, ws ! j1)) \<longleftrightarrow>
        (posicion N k j1 = i \<and> posicion N k j2 = N - i \<or>
         posicion N k j2 = i \<and> posicion N k j1 = N - i)"
      unfolding pareja_iff[OF len N d kl il j1 j2] pareja_iff[OF len N d kl il j2 j1] ..
    also have "\<dots> \<longleftrightarrow> posicion N k j1 + posicion N k j2 = N \<and>
        i = min (posicion N k j1) (posicion N k j2)"
      by (rule par_en_mesa[OF odd p1 p2 i])
    also have "\<dots> \<longleftrightarrow> k = k0 \<and> i = ?i0"
      using encuentro_unico[OF odd j1 j2 ne k k0(1) _ k0(2)] k0(2) by auto
    finally show ?thesis by (simp add: zk)
  qed
  have dz: "distinct (List.product [0..<N] [0..<Suc N div 2])"
    by (simp add: distinct_product)
  show ?thesis by (rule filtro_1[OF dz mem car])
qed

section \<open>Rounds, tables and order\<close>

lemma clave_campos: "clave x = (ronda_de x, mesa_de x)"
  by (simp add: clave_def ronda_de_def mesa_de_def)

lemma rondas_de_equipos:
  "longitud_ok n names \<Longrightarrow> int (length (equipos_de n names bye)) - 1 = rondas_de n"
  by (simp add: length_equipos_de rondas_de_def)

lemma mesas_de_equipos:
  "longitud_ok n names \<Longrightarrow> int (length (equipos_de n names bye) div 2) = mesas_de n"
  by (simp add: length_equipos_de mesas_de_def zdiv_int)

lemma claves_generar:
  assumes "longitud_ok n names"
  shows "map clave (filas_de dr bal bye (equipos_de n names bye)) =
         List.product [1..rondas_totales n dr] [1..mesas_de n]"
  unfolding claves_filas_de rondas_de_equipos[OF assms] mesas_de_equipos[OF assms]
    rondas_totales_def ..

lemma sorted_claves: "sorted (List.product [1..(a::int)] [1..(b::int)])"
  by (simp add: sorted_product)

lemma distinct_claves: "distinct (List.product [1..(a::int)] [1..(b::int)])"
  by (simp add: distinct_product)

text \<open>
  Claim C7.  For every input that passes the validation, the rows come out in ascending
  order of the pair (round, table), and their pairs are exactly
  \<open>(1,1), \<dots>, (1,h), (2,1), \<dots>, (T,h)\<close>: rounds 1 to the total number of rounds \<open>T\<close>
  without a gap, and in each round tables 1 to \<open>h\<close> without a gap.
\<close>

theorem fixture_ordenado:
  assumes "longitud_ok n names"
  shows "\<exists>filas. generar_fixture n names dr bal bye = Inr filas \<and>
           sorted (map (\<lambda>x. (ronda_de x, mesa_de x)) filas) \<and>
           map (\<lambda>x. (ronda_de x, mesa_de x)) filas =
             concat (map (\<lambda>r. map (\<lambda>t. (r, t)) [1..mesas_de n]) [1..rondas_totales n dr])"
proof -
  let ?filas = "filas_de dr bal bye (equipos_de n names bye)"
  have c: "map (\<lambda>x. (ronda_de x, mesa_de x)) ?filas =
      List.product [1..rondas_totales n dr] [1..mesas_de n]"
    using claves_generar[OF assms, of dr bal bye] by (simp add: clave_campos[abs_def])
  have s: "sorted (map (\<lambda>x. (ronda_de x, mesa_de x)) ?filas)"
    unfolding c by (rule sorted_claves)
  have e: "map (\<lambda>x. (ronda_de x, mesa_de x)) ?filas =
      concat (map (\<lambda>r. map (\<lambda>t. (r, t)) [1..mesas_de n]) [1..rondas_totales n dr])"
    unfolding c by (rule product_concat_map)
  show ?thesis
    unfolding generar_fixture_eq[OF assms]
    by (intro exI[of _ ?filas] conjI refl s e)
qed

theorem fixture_ordenado_witness:
  "longitud_ok 3 None \<and>
   (\<exists>filas. generar_fixture 3 None True True ''DESCANSA'' = Inr filas \<and>
      sorted (map (\<lambda>x. (ronda_de x, mesa_de x)) filas) \<and>
      map (\<lambda>x. (ronda_de x, mesa_de x)) filas =
        [(1, 1), (1, 2), (2, 1), (2, 2), (3, 1), (3, 2),
         (4, 1), (4, 2), (5, 1), (5, 2), (6, 1), (6, 2)])"
proof -
  have h: "longitud_ok 3 None" by (simp add: longitud_ok_def)
  have u: "[1..6] = [1, 2, 3, 4, 5, 6 :: int]" "[1..2] = [1, 2 :: int]" by code_simp+
  show ?thesis
    using h fixture_ordenado[OF h, of True True "''DESCANSA''"]
    by (simp add: rondas_totales_def rondas_de_def mesas_de_def u)
qed

section \<open>Rows and their fields\<close>

lemma nota_fila_de:
  "nota_de (fila_de bal bye r t p) = (if fst p = bye \<or> snd p = bye then ''DESCANSA'' else '''')"
  by (simp add: fila_de_def nota_de_def Let_def)

lemma ronda_fila_de: "ronda_de (fila_de bal bye r t p) = r"
  by (simp add: fila_de_def ronda_de_def Let_def)

lemma mesa_fila_de: "mesa_de (fila_de bal bye r t p) = t"
  by (simp add: fila_de_def mesa_de_def Let_def)

lemma visita_descansa: "nota_de (fila_de bal bye r t p) = ''DESCANSA'' \<Longrightarrow> visita_de (fila_de bal bye r t p) = ''''"
  by (auto simp add: fila_de_def nota_de_def visita_de_def Let_def split: if_splits)

lemma fila_vuelta_espejo:
  "nota_de x = '''' \<or> nota_de x = ''DESCANSA'' \<Longrightarrow> fila_vuelta R x = espejo_spec R x"
  by (cases x)
    (auto simp: fila_vuelta_def espejo_spec_def nota_de_def ronda_de_def mesa_de_def
      local_de_def visita_de_def Let_def)

lemma ida_filas_forma:
  assumes "x \<in> set (ida_filas bal bye ws)"
  obtains k i where "k < length ws - 1" "i < length ws div 2"
    "x = fila_de bal bye (int k + 1) (int i + 1) (pareja ws k i)"
  using assms by (auto simp: ida_filas_def fila_en_def)

lemma nota_ida_filas:
  "x \<in> set (ida_filas bal bye ws) \<Longrightarrow> nota_de x = '''' \<or> nota_de x = ''DESCANSA''"
  by (erule ida_filas_forma) (simp add: nota_fila_de)

lemma visita_ida_filas:
  "x \<in> set (ida_filas bal bye ws) \<Longrightarrow> nota_de x = ''DESCANSA'' \<Longrightarrow> visita_de x = ''''"
  by (erule ida_filas_forma) (simp add: visita_descansa)

lemma vuelta_espejo_ida:
  "map (fila_vuelta R) (ida_filas bal bye ws) = map (espejo_spec R) (ida_filas bal bye ws)"
  by (rule map_cong[OF refl]) (simp add: fila_vuelta_espejo nota_ida_filas)

lemma set_fst_product: "ys \<noteq> [] \<Longrightarrow> fst ` set (List.product xs ys) = set xs"
  by (cases ys) (auto simp: image_iff)

lemma rondas_de_claves:
  assumes "map clave filas = List.product [1..T] [1..h]" "1 \<le> h"
  shows "set (map ronda_de filas) = {1..T}"
proof -
  have "map ronda_de filas = map fst (map clave filas)"
    by (simp add: clave_campos)
  then have "set (map ronda_de filas) = fst ` set (List.product [1..T] [1..h])"
    unfolding assms(1) by simp
  also have "\<dots> = {1..T}"
    using set_fst_product[of "[1..h]" "[1..T]"] assms(2) by simp
  finally show ?thesis .
qed

lemma mesas_de_pos: "2 \<le> n \<Longrightarrow> 1 \<le> mesas_de n"
  by (auto simp: mesas_de_def)

text \<open>
  Claim C4.  With \<open>double_round\<close> the output is the output of the single round-robin (the
  first leg) followed by one row for each of its rows, in the same order: the row moved by
  the number of rounds of the first leg, at the same table, with home and away swapped,
  a BYE row keeping its home, its empty away and its note.  No two rows of the output share
  a round and table, and the rounds of the output are 1 to twice the rounds of the first leg.
\<close>

theorem vuelta_es_espejo:
  assumes "longitud_ok n names"
  shows "\<exists>ida. generar_fixture n names False bal bye = Inr ida \<and>
           generar_fixture n names True bal bye =
             Inr (ida @ map (espejo_spec (rondas_de n)) ida) \<and>
           (\<forall>x\<in>set ida. nota_de x = ''DESCANSA'' \<longrightarrow> visita_de x = '''') \<and>
           distinct (map (\<lambda>x. (ronda_de x, mesa_de x)) (ida @ map (espejo_spec (rondas_de n)) ida)) \<and>
           set (map ronda_de ida) = {1..rondas_de n} \<and>
           set (map ronda_de (ida @ map (espejo_spec (rondas_de n)) ida)) = {1..2 * rondas_de n}"
proof -
  let ?ws = "equipos_de n names bye"
  let ?ida = "ida_filas bal bye ?ws"
  let ?todo = "?ida @ map (espejo_spec (rondas_de n)) ?ida"
  have n2: "2 \<le> n" using assms by (simp add: longitud_ok_def)
  have doble: "filas_de True bal bye ?ws = ?todo"
    by (simp add: filas_de_def rondas_de_equipos[OF assms] vuelta_espejo_ida)
  have c1: "map clave ?ida = List.product [1..rondas_de n] [1..mesas_de n]"
    using claves_generar[OF assms, of False bal bye] by (simp add: filas_de_def rondas_totales_def)
  have c2: "map clave ?todo = List.product [1..2 * rondas_de n] [1..mesas_de n]"
    using claves_generar[OF assms, of True bal bye] unfolding doble by (simp add: rondas_totales_def)
  have d: "distinct (map (\<lambda>x. (ronda_de x, mesa_de x)) ?todo)"
    using c2 distinct_claves[of "2 * rondas_de n" "mesas_de n"] by (simp add: clave_campos[abs_def])
  have r1: "set (map ronda_de ?ida) = {1..rondas_de n}"
    by (rule rondas_de_claves[OF c1 mesas_de_pos[OF n2]])
  have r2: "set (map ronda_de ?todo) = {1..2 * rondas_de n}"
    by (rule rondas_de_claves[OF c2 mesas_de_pos[OF n2]])
  have v: "\<forall>x\<in>set ?ida. nota_de x = ''DESCANSA'' \<longrightarrow> visita_de x = ''''"
    by (simp add: visita_ida_filas)
  have i: "generar_fixture n names False bal bye = Inr ?ida"
    unfolding generar_fixture_eq[OF assms] by (simp add: filas_de_def)
  have t: "generar_fixture n names True bal bye = Inr ?todo"
    unfolding generar_fixture_eq[OF assms] doble ..
  show ?thesis
    by (intro exI[of _ ?ida] conjI i t v d r1 r2)
qed

theorem vuelta_es_espejo_witness:
  "longitud_ok 3 None \<and>
   generar_fixture 3 None True True ''DESCANSA'' =
     Inr [(1, 1, ''E1'', '''', ''DESCANSA''), (1, 2, ''E2'', ''E3'', ''''),
          (2, 1, ''E3'', ''E1'', ''''), (2, 2, ''E2'', '''', ''DESCANSA''),
          (3, 1, ''E1'', ''E2'', ''''), (3, 2, ''E3'', '''', ''DESCANSA''),
          (4, 1, ''E1'', '''', ''DESCANSA''), (4, 2, ''E3'', ''E2'', ''''),
          (5, 1, ''E1'', ''E3'', ''''), (5, 2, ''E2'', '''', ''DESCANSA''),
          (6, 1, ''E2'', ''E1'', ''''), (6, 2, ''E3'', '''', ''DESCANSA'')]"
proof -
  have h: "longitud_ok 3 None" by (simp add: longitud_ok_def)
  have e: "generar_fixture 3 None False True ''DESCANSA'' =
     Inr [(1, 1, ''E1'', '''', ''DESCANSA''), (1, 2, ''E2'', ''E3'', ''''),
          (2, 1, ''E3'', ''E1'', ''''), (2, 2, ''E2'', '''', ''DESCANSA''),
          (3, 1, ''E1'', ''E2'', ''''), (3, 2, ''E3'', '''', ''DESCANSA'')]"
    by code_simp
  from vuelta_es_espejo[OF h, of True "''DESCANSA''"] obtain ida where
    "generar_fixture 3 None False True ''DESCANSA'' = Inr ida"
    "generar_fixture 3 None True True ''DESCANSA'' = Inr (ida @ map (espejo_spec (rondas_de 3)) ida)"
    by blast
  with e h show ?thesis
    by (simp add: espejo_spec_def rondas_de_def nota_de_def ronda_de_def mesa_de_def
        local_de_def visita_de_def)
qed

section \<open>Counting rows\<close>

lemma filter_product_fst:
  "filter (\<lambda>p. fst p = r) (List.product xs ys) = List.product (filter (\<lambda>x. x = r) xs) ys"
  by (induction xs) (auto simp: filter_map comp_def)

lemma filtro_igual: "distinct xs \<Longrightarrow> r \<in> set xs \<Longrightarrow> filter (\<lambda>x. x = r) xs = [r]"
  by (induction xs) (auto simp: filter_empty_conv)

lemma cuenta_ronda:
  assumes c: "map clave filas = List.product [1..T] [1..h]" and r: "1 \<le> r" "r \<le> T"
  shows "length (filter (\<lambda>x. ronda_de x = r) filas) = nat h"
proof -
  have "length (filter (\<lambda>x. ronda_de x = r) filas) =
      length (filter (\<lambda>p. fst p = r) (map clave filas))"
    by (simp add: filter_map comp_def clave_campos)
  also have "\<dots> = length (List.product (filter (\<lambda>x. x = r) [1..T]) [1..h])"
    unfolding c filter_product_fst ..
  also have "filter (\<lambda>x. x = r) [1..T] = [r]"
    using r by (intro filtro_igual) simp_all
  finally show ?thesis by simp
qed

lemma pareja_en:
  assumes "2 \<le> length ws" "i < length ws div 2"
  shows "fst (pareja ws k i) \<in> set ws" "snd (pareja ws k i) \<in> set ws"
proof -
  have l: "length (trabajo k ws) = length ws" by (rule length_trabajo[OF assms(1)])
  have "trabajo k ws ! i \<in> set (trabajo k ws)" using assms(2) l by (intro nth_mem) simp
  then show "fst (pareja ws k i) \<in> set ws"
    by (simp add: pareja_def set_trabajo[OF assms(1)])
  have "trabajo k ws ! (length ws - 1 - i) \<in> set (trabajo k ws)"
    using assms l by (intro nth_mem) simp
  then show "snd (pareja ws k i) \<in> set ws"
    by (simp add: pareja_def set_trabajo[OF assms(1)])
qed

lemma sin_descansa:
  assumes "2 \<le> length ws" "bye \<notin> set ws" "x \<in> set (ida_filas bal bye ws)"
  shows "nota_de x = ''''"
proof -
  from assms(3) obtain k i where ki: "i < length ws div 2"
    "x = fila_de bal bye (int k + 1) (int i + 1) (pareja ws k i)"
    by (rule ida_filas_forma)
  from pareja_en[OF assms(1) ki(1), of k] assms(2)
  have "fst (pareja ws k i) \<noteq> bye" "snd (pareja ws k i) \<noteq> bye" by auto
  then show ?thesis by (simp add: ki(2) nota_fila_de)
qed

text \<open>
  Claim C3.  For an even \<open>n \<ge> 2\<close> (with the names absent or of length \<open>n\<close>) the single
  round-robin has the rounds 1 to \<open>n - 1\<close>, each with \<open>n div 2\<close> rows, and
  \<open>(n - 1) * (n div 2)\<close> rows in all, rounds times tables; when the bye label is not the
  label of a participant, as the specification requires of the caller, no row carries the
  note \<open>DESCANSA\<close>.
\<close>

theorem fixture_par:
  assumes "longitud_ok n names" and "n mod 2 = 0"
  shows "\<exists>filas. generar_fixture n names False bal bye = Inr filas \<and>
           set (map ronda_de filas) = {1..n - 1} \<and>
           (\<forall>r\<in>{1..n - 1}. length (filter (\<lambda>x. ronda_de x = r) filas) = nat (n div 2)) \<and>
           int (length filas) = (n - 1) * (n div 2) \<and>
           (bye \<notin> set (equipos_iniciales n names) \<longrightarrow>
              (\<forall>x\<in>set filas. nota_de x \<noteq> ''DESCANSA''))"
proof -
  let ?ws = "equipos_de n names bye"
  let ?ida = "ida_filas bal bye ?ws"
  have n2: "2 \<le> n" using assms(1) by (simp add: longitud_ok_def)
  have ws: "?ws = equipos_iniciales n names" using assms(2) by (simp add: equipos_de_def)
  have R: "rondas_de n = n - 1" and h: "mesas_de n = n div 2"
    using assms(2) by (simp_all add: rondas_de_def mesas_de_def)
  have c: "map clave ?ida = List.product [1..n - 1] [1..n div 2]"
    using claves_generar[OF assms(1), of False bal bye]
    by (simp add: filas_de_def rondas_totales_def R h)
  have g: "generar_fixture n names False bal bye = Inr ?ida"
    unfolding generar_fixture_eq[OF assms(1)] by (simp add: filas_de_def)
  have r: "set (map ronda_de ?ida) = {1..n - 1}"
    using rondas_de_claves[OF c] mesas_de_pos[OF n2] h by simp
  have m: "\<forall>r\<in>{1..n - 1}. length (filter (\<lambda>x. ronda_de x = r) ?ida) = nat (n div 2)"
    using cuenta_ronda[OF c] by simp
  have b: "bye \<notin> set (equipos_iniciales n names) \<longrightarrow>
      (\<forall>x\<in>set ?ida. nota_de x \<noteq> ''DESCANSA'')"
    using sin_descansa[OF length_equipos_de_ge2[OF assms(1)], of bye bye _ bal] ws
    by auto
  have "length ?ida = length (map clave ?ida)" by simp
  also have "\<dots> = nat (n - 1) * nat (n div 2)" unfolding c using n2 by simp
  finally have l: "int (length ?ida) = (n - 1) * (n div 2)" using n2 by simp
  show ?thesis by (intro exI[of _ ?ida] conjI g r m l b)
qed

theorem fixture_par_witness:
  "longitud_ok 4 None \<and> (4::int) mod 2 = 0 \<and>
   ''DESCANSA'' \<notin> set (equipos_iniciales 4 None) \<and>
   (\<exists>filas. generar_fixture 4 None False True ''DESCANSA'' = Inr filas \<and>
      set (map ronda_de filas) = {1..3} \<and>
      (\<forall>r\<in>{1..3}. length (filter (\<lambda>x. ronda_de x = r) filas) = 2) \<and>
      int (length filas) = 6 \<and>
      (\<forall>x\<in>set filas. nota_de x \<noteq> ''DESCANSA''))"
proof -
  have h: "longitud_ok 4 None" by (simp add: longitud_ok_def)
  have p: "(4::int) mod 2 = 0" by simp
  have b: "''DESCANSA'' \<notin> set (equipos_iniciales 4 None)" by code_simp
  show ?thesis
    using h p b fixture_par[OF h p, of True "''DESCANSA''"] by simp
qed

section \<open>The default names\<close>

lemma of_char_digito: "d < 10 \<Longrightarrow> of_char (digito d) = 48 + d"
  by (simp add: digito_def)

lemma valor_snoc: "valor (s @ [c]) = 10 * valor s + (of_char c - 48)"
  by (simp add: valor_def)

lemma valor_digitos: "valor (digitos k) = k"
proof (induction k rule: digitos.induct)
  case (1 k)
  show ?case
  proof (cases "k < 10")
    case True
    then show ?thesis by (subst digitos.simps) (simp add: valor_def of_char_digito)
  next
    case False
    have "valor (digitos k) = 10 * valor (digitos (k div 10)) + (of_char (digito (k mod 10)) - 48)"
      using False by (subst digitos.simps) (simp add: valor_snoc)
    also have "\<dots> = 10 * (k div 10) + k mod 10"
      using 1[OF False] by (simp add: of_char_digito)
    finally show ?thesis by simp
  qed
qed

lemma digitos_inj:
  assumes "digitos a = digitos b"
  shows "a = b"
proof -
  have "valor (digitos a) = valor (digitos b)" by (simp only: assms)
  then show ?thesis by (simp only: valor_digitos)
qed

lemma str_int_inj:
  assumes "0 \<le> a" "0 \<le> b" "str_int a = str_int b"
  shows "a = b"
proof -
  have "digitos (nat a) = digitos (nat b)" using assms by (simp add: str_int_def)
  then have "nat a = nat b" by (rule digitos_inj)
  with assms(1,2) show ?thesis by simp
qed

lemma distinct_nombres_por_defecto: "distinct (nombres_por_defecto n)"
proof -
  have "inj_on (\<lambda>i. ''E'' @ str_int i) (set [1..n])"
  proof (rule inj_onI)
    fix a b assume "a \<in> set [1..n]" "b \<in> set [1..n]" "''E'' @ str_int a = ''E'' @ str_int b"
    then show "a = b" by (intro str_int_inj) simp_all
  qed
  then show ?thesis by (simp add: nombres_por_defecto_def distinct_map)
qed

lemma BYE_LABEL_no_es_nombre: "BYE_LABEL \<notin> set (nombres_por_defecto n)"
  by (auto simp: nombres_por_defecto_def BYE_LABEL_def)

lemma entrada_valida_por_defecto: "2 \<le> n \<Longrightarrow> entrada_valida n None BYE_LABEL"
  by (simp add: entrada_valida_def longitud_ok_def equipos_iniciales_def
      distinct_nombres_por_defecto BYE_LABEL_no_es_nombre)

lemma entrada_valida_nombres:
  "2 \<le> n \<Longrightarrow> int (length ns) = n \<Longrightarrow> distinct ns \<Longrightarrow> bye \<notin> set ns \<Longrightarrow>
   entrada_valida n (Some ns) bye"
  by (auto simp: entrada_valida_def longitud_ok_def equipos_iniciales_def)

lemma distinct_equipos_de: "entrada_valida n names bye \<Longrightarrow> distinct (equipos_de n names bye)"
  by (simp add: entrada_valida_def equipos_de_def)

lemma set_equipos_de:
  "set (equipos_de n names bye) =
     (if n mod 2 = 1 then insert bye (set (equipos_iniciales n names))
      else set (equipos_iniciales n names))"
  by (simp add: equipos_de_def)

section \<open>Every pair meets once\<close>

lemma enfrenta_fila_de:
  assumes "x \<noteq> bye" "y \<noteq> bye"
  shows "(enfrenta x y (fila_de bal bye r t p) \<or> enfrenta y x (fila_de bal bye r t p)) \<longleftrightarrow>
         (p = (x, y) \<or> p = (y, x))"
  using assms
  by (cases p)
    (auto simp: enfrenta_def fila_de_def nota_de_def local_de_def visita_de_def Let_def)

lemma enfrenta_fila_vuelta: "enfrenta a b (fila_vuelta R f) \<longleftrightarrow> enfrenta b a f"
  by (cases f)
    (auto simp: enfrenta_def fila_vuelta_def nota_de_def local_de_def visita_de_def Let_def)

lemma length_filter_disj:
  assumes "\<And>f. f \<in> set xs \<Longrightarrow> \<not> (P f \<and> Q f)"
  shows "length (filter P xs) + length (filter Q xs) = length (filter (\<lambda>f. P f \<or> Q f) xs)"
  using assms by (induction xs) auto

lemma indice_de:
  assumes "x \<in> set ws" "length ws = Suc N"
  obtains j where "j \<le> N" "ws ! j = x"
  using assms by (auto simp: in_set_conv_nth less_Suc_eq_le)

lemma longitud_impar:
  assumes "longitud_ok n names"
  obtains N where "length (equipos_de n names bye) = Suc N" "odd N"
proof -
  from length_equipos_de_ge2[OF assms, of bye]
  obtain N where N: "length (equipos_de n names bye) = Suc N"
    by (cases "length (equipos_de n names bye)") auto
  moreover have "odd N" using even_length_equipos_de[OF assms, of bye] N by simp
  ultimately show ?thesis by (rule that)
qed

lemma ida_una_vez:
  assumes len: "length ws = Suc N" and odd: "odd N" and d: "distinct ws"
    and x: "x \<in> set ws" and y: "y \<in> set ws" and ne: "x \<noteq> y"
    and xb: "x \<noteq> bye" and yb: "y \<noteq> bye"
  shows "length (filter (\<lambda>f. enfrenta x y f \<or> enfrenta y x f) (ida_filas bal bye ws)) = 1"
proof -
  from x len obtain j1 where j1: "j1 \<le> N" "ws ! j1 = x" by (rule indice_de)
  from y len obtain j2 where j2: "j2 \<le> N" "ws ! j2 = y" by (rule indice_de)
  have jne: "j1 \<noteq> j2" using ne j1(2) j2(2) by auto
  let ?zs = "List.product [0..<N] [0..<Suc N div 2]"
  have "length (filter (\<lambda>f. enfrenta x y f \<or> enfrenta y x f) (ida_filas bal bye ws)) =
      length (filter (\<lambda>z. enfrenta x y (fila_en bal bye ws z) \<or>
                            enfrenta y x (fila_en bal bye ws z)) ?zs)"
    by (simp add: ida_filas_def len filter_map comp_def)
  also have "\<dots> = length (filter (\<lambda>z. pareja ws (fst z) (snd z) = (ws ! j1, ws ! j2) \<or>
                           pareja ws (fst z) (snd z) = (ws ! j2, ws ! j1)) ?zs)"
    by (simp add: fila_en_def enfrenta_fila_de[OF xb yb] j1(2) j2(2))
  also have "\<dots> = 1" by (rule pareja_unica[OF len odd d j1(1) j2(1) jne])
  finally show ?thesis .
qed

lemma doble_una_vez:
  assumes len: "length ws = Suc N" and odd: "odd N" and d: "distinct ws"
    and x: "x \<in> set ws" and y: "y \<in> set ws" and ne: "x \<noteq> y"
    and xb: "x \<noteq> bye" and yb: "y \<noteq> bye"
  shows "length (filter (enfrenta x y) (filas_de True bal bye ws)) = 1"
proof -
  let ?F = "ida_filas bal bye ws"
  have "length (filter (enfrenta x y) (filas_de True bal bye ws)) =
      length (filter (enfrenta x y) ?F) + length (filter (enfrenta y x) ?F)"
    by (simp add: filas_de_def filter_map comp_def enfrenta_fila_vuelta)
  also have "\<dots> = length (filter (\<lambda>f. enfrenta x y f \<or> enfrenta y x f) ?F)"
    using ne by (intro length_filter_disj) (auto simp: enfrenta_def)
  also have "\<dots> = 1" by (rule ida_una_vez[OF len odd d x y ne xb yb])
  finally show ?thesis .
qed

text \<open>
  Claim C1.  For a valid input and two different participants \<open>x\<close> and \<open>y\<close>: the single
  round-robin has exactly one match between them (in one of the two orientations); the
  double round-robin has exactly one match with \<open>x\<close> at home and \<open>y\<close> away and exactly one
  with \<open>y\<close> at home and \<open>x\<close> away, two in all.  A match is a row that is not a BYE row (the
  empty away field of a BYE row is not a participant).
\<close>

theorem cada_par_una_vez:
  assumes v: "entrada_valida n names bye"
    and x: "x \<in> set (equipos_iniciales n names)"
    and y: "y \<in> set (equipos_iniciales n names)" and ne: "x \<noteq> y"
  shows "\<exists>simple doble.
           generar_fixture n names False bal bye = Inr simple \<and>
           generar_fixture n names True bal bye = Inr doble \<and>
           length (filter (\<lambda>f. enfrenta x y f \<or> enfrenta y x f) simple) = 1 \<and>
           length (filter (enfrenta x y) doble) = 1 \<and>
           length (filter (enfrenta y x) doble) = 1 \<and>
           length (filter (\<lambda>f. enfrenta x y f \<or> enfrenta y x f) doble) = 2"
proof -
  let ?ws = "equipos_de n names bye"
  have ok: "longitud_ok n names" using v by (simp add: entrada_valida_def)
  obtain N where len: "length ?ws = Suc N" and odd: "odd N" by (rule longitud_impar[OF ok])
  have d: "distinct ?ws" by (rule distinct_equipos_de[OF v])
  have xs: "x \<in> set ?ws" and ys: "y \<in> set ?ws" using x y by (simp_all add: set_equipos_de)
  have xb: "x \<noteq> bye" and yb: "y \<noteq> bye" using v x y by (auto simp: entrada_valida_def)
  have s: "generar_fixture n names False bal bye = Inr (ida_filas bal bye ?ws)"
    unfolding generar_fixture_eq[OF ok] by (simp add: filas_de_def)
  have t: "generar_fixture n names True bal bye = Inr (filas_de True bal bye ?ws)"
    by (rule generar_fixture_eq[OF ok])
  have c1: "length (filter (\<lambda>f. enfrenta x y f \<or> enfrenta y x f) (ida_filas bal bye ?ws)) = 1"
    by (rule ida_una_vez[OF len odd d xs ys ne xb yb])
  have c2: "length (filter (enfrenta x y) (filas_de True bal bye ?ws)) = 1"
    by (rule doble_una_vez[OF len odd d xs ys ne xb yb])
  have c3: "length (filter (enfrenta y x) (filas_de True bal bye ?ws)) = 1"
    using ne by (intro doble_una_vez[OF len odd d ys xs _ yb xb]) simp
  have "length (filter (\<lambda>f. enfrenta x y f \<or> enfrenta y x f) (filas_de True bal bye ?ws)) =
      length (filter (enfrenta x y) (filas_de True bal bye ?ws)) +
      length (filter (enfrenta y x) (filas_de True bal bye ?ws))"
    using ne by (intro length_filter_disj[symmetric]) (auto simp: enfrenta_def)
  then have c4: "length (filter (\<lambda>f. enfrenta x y f \<or> enfrenta y x f)
      (filas_de True bal bye ?ws)) = 2"
    using c2 c3 by simp
  show ?thesis unfolding s t using c1 c2 c3 c4 by simp
qed

theorem cada_par_una_vez_witness:
  "entrada_valida 5 None ''DESCANSA'' \<and>
   ''E2'' \<in> set (equipos_iniciales 5 None) \<and> ''E4'' \<in> set (equipos_iniciales 5 None) \<and>
   ''E2'' \<noteq> ''E4'' \<and>
   (\<exists>simple doble.
      generar_fixture 5 None False True ''DESCANSA'' = Inr simple \<and>
      generar_fixture 5 None True True ''DESCANSA'' = Inr doble \<and>
      length (filter (\<lambda>f. enfrenta ''E2'' ''E4'' f \<or> enfrenta ''E4'' ''E2'' f) simple) = 1 \<and>
      length (filter (enfrenta ''E2'' ''E4'') doble) = 1 \<and>
      length (filter (enfrenta ''E4'' ''E2'') doble) = 1 \<and>
      length (filter (\<lambda>f. enfrenta ''E2'' ''E4'' f \<or> enfrenta ''E4'' ''E2'' f) doble) = 2)"
proof -
  have v: "entrada_valida 5 None ''DESCANSA''" by code_simp
  have x: "''E2'' \<in> set (equipos_iniciales 5 None)" by code_simp
  have y: "''E4'' \<in> set (equipos_iniciales 5 None)" by code_simp
  have ne: "''E2'' \<noteq> ''E4''" by simp
  show ?thesis
    using v x y ne cada_par_una_vez[OF v x y ne, of True] by simp
qed

section \<open>One table for everyone in every round\<close>

lemma pareja_fst:
  assumes len: "length ws = Suc N" and N: "0 < N" and d: "distinct ws"
    and k: "k \<le> N" and i: "i \<le> N" and j: "j \<le> N"
  shows "fst (pareja ws k i) = ws ! j \<longleftrightarrow> posicion N k j = i"
proof -
  let ?w = "trabajo k ws"
  have l2: "2 \<le> length ws" using len N by simp
  have lw: "length ?w = Suc N" using length_trabajo[OF l2] len by simp
  have dw: "distinct ?w" using distinct_trabajo[OF l2] d by simp
  have n: "?w ! posicion N k j = ws ! j" by (rule trabajo_nth[OF len N j k])
  have p: "posicion N k j < length ?w" using posicion_le[OF j k] lw by simp
  have "fst (pareja ws k i) = ws ! j \<longleftrightarrow> ?w ! i = ?w ! posicion N k j"
    by (simp add: pareja_def n)
  also have "\<dots> \<longleftrightarrow> i = posicion N k j"
    using dw p i lw by (simp add: nth_eq_iff_index_eq)
  finally show ?thesis by auto
qed

lemma pareja_snd:
  assumes len: "length ws = Suc N" and N: "0 < N" and d: "distinct ws"
    and k: "k \<le> N" and i: "i \<le> N" and j: "j \<le> N"
  shows "snd (pareja ws k i) = ws ! j \<longleftrightarrow> posicion N k j = N - i"
proof -
  let ?w = "trabajo k ws"
  have l2: "2 \<le> length ws" using len N by simp
  have lw: "length ?w = Suc N" using length_trabajo[OF l2] len by simp
  have dw: "distinct ?w" using distinct_trabajo[OF l2] d by simp
  have n: "?w ! posicion N k j = ws ! j" by (rule trabajo_nth[OF len N j k])
  have p: "posicion N k j < length ?w" using posicion_le[OF j k] lw by simp
  have "snd (pareja ws k i) = ws ! j \<longleftrightarrow> ?w ! (N - i) = ?w ! posicion N k j"
    by (simp add: pareja_def n len)
  also have "\<dots> \<longleftrightarrow> N - i = posicion N k j"
    using dw p i lw by (simp add: nth_eq_iff_index_eq)
  finally show ?thesis by auto
qed

lemma en_ronda_unico:
  assumes len: "length ws = Suc N" and odd: "odd N" and d: "distinct ws"
    and k: "k < N" and j: "j \<le> N"
  shows "length (filter (\<lambda>i. fst (pareja ws k i) = ws ! j \<or> snd (pareja ws k i) = ws ! j)
           [0..<Suc N div 2]) = 1"
proof -
  have N: "0 < N" using odd by (cases N) auto
  have kl: "k \<le> N" using k by simp
  let ?p = "posicion N k j"
  have p: "?p \<le> N" by (rule posicion_le[OF j kl])
  have mem: "min ?p (N - ?p) \<in> set [0..<Suc N div 2]"
    using mesa_menor[OF odd p] by simp
  have car: "(fst (pareja ws k i) = ws ! j \<or> snd (pareja ws k i) = ws ! j) \<longleftrightarrow>
      i = min ?p (N - ?p)" if "i \<in> set [0..<Suc N div 2]" for i
  proof -
    from that have i: "i < Suc N div 2" by simp
    then have il: "i \<le> N" by simp
    show ?thesis
      unfolding pareja_fst[OF len N d kl il j] pareja_snd[OF len N d kl il j]
      by (rule mesa_unica[OF odd p i])
  qed
  show ?thesis by (rule filtro_1[OF _ mem car]) simp
qed

lemma filter_product_ronda:
  "distinct xs \<Longrightarrow> k \<in> set xs \<Longrightarrow>
   filter (\<lambda>z. fst z = k \<and> Q z) (List.product xs ys) = map (Pair k) (filter (\<lambda>i. Q (k, i)) ys)"
proof (induction xs)
  case Nil
  then show ?case by simp
next
  case (Cons a xs)
  have vacio: "filter (\<lambda>z. fst z = k \<and> Q z) (List.product xs ys) = []" if "k \<notin> set xs"
    using that by (auto simp: filter_empty_conv)
  show ?case
  proof (cases "a = k")
    case True
    then have "k \<notin> set xs" using Cons.prems by simp
    then show ?thesis using True by (simp add: vacio filter_map comp_def)
  next
    case False
    then have "filter (\<lambda>z. fst z = k \<and> Q z) (map (Pair a) ys) = []"
      by (auto simp: filter_empty_conv)
    then show ?thesis using False Cons by simp
  qed
qed

lemma ida_ronda:
  assumes "k < length ws - 1"
  shows "length (filter (\<lambda>f. ronda_de f = int k + 1 \<and> P f) (ida_filas bal bye ws)) =
         length (filter (\<lambda>i. P (fila_en bal bye ws (k, i))) [0..<length ws div 2])"
proof -
  have r: "ronda_de (fila_en bal bye ws z) = int k + 1 \<longleftrightarrow> fst z = k" for z
    by (simp add: fila_en_def ronda_fila_de)
  have "filter (\<lambda>f. ronda_de f = int k + 1 \<and> P f) (ida_filas bal bye ws) =
      map (fila_en bal bye ws)
        (filter (\<lambda>z. fst z = k \<and> P (fila_en bal bye ws z))
           (List.product [0..<length ws - 1] [0..<length ws div 2]))"
    by (simp add: ida_filas_def filter_map comp_def r)
  also have "filter (\<lambda>z. fst z = k \<and> P (fila_en bal bye ws z))
           (List.product [0..<length ws - 1] [0..<length ws div 2]) =
      map (Pair k) (filter (\<lambda>i. P (fila_en bal bye ws (k, i))) [0..<length ws div 2])"
    using assms by (intro filter_product_ronda) simp_all
  finally show ?thesis by simp
qed

lemma ocupa_fila_de: "ocupa bye p (fila_de bal bye r t q) \<longleftrightarrow> fst q = p \<or> snd q = p"
  by (cases q)
    (auto simp: ocupa_def fila_de_def nota_de_def local_de_def visita_de_def Let_def)

lemma ocupa_fila_vuelta: "ocupa bye p (fila_vuelta R f) \<longleftrightarrow> ocupa bye p f"
  by (cases f)
    (auto simp: ocupa_def fila_vuelta_def nota_de_def local_de_def visita_de_def Let_def)

lemma figura_ocupa: "figura p f \<Longrightarrow> ocupa bye p f"
  by (auto simp: figura_def ocupa_def)

lemma ocupa_figura: "p \<noteq> bye \<Longrightarrow> ocupa bye p f \<longleftrightarrow> figura p f"
  by (auto simp: figura_def ocupa_def)

lemma ronda_fila_vuelta: "ronda_de (fila_vuelta R f) = ronda_de f + R"
  by (cases f) (simp add: fila_vuelta_def ronda_de_def Let_def)

lemma ronda_ida_filas:
  assumes "f \<in> set (ida_filas bal bye ws)"
  shows "1 \<le> ronda_de f" "ronda_de f \<le> int (length ws) - 1"
proof -
  from assms obtain k i where "k < length ws - 1"
    "f = fila_de bal bye (int k + 1) (int i + 1) (pareja ws k i)"
    by (rule ida_filas_forma)
  then show "1 \<le> ronda_de f" "ronda_de f \<le> int (length ws) - 1"
    by (auto simp: ronda_fila_de)
qed

lemma ocupa_en_ronda:
  assumes len: "length ws = Suc N" and odd: "odd N" and d: "distinct ws"
    and k: "k < N" and p: "p \<in> set ws"
  shows "length (filter (\<lambda>f. ronda_de f = int k + 1 \<and> ocupa bye p f) (ida_filas bal bye ws)) = 1"
proof -
  from p len obtain j where j: "j \<le> N" "ws ! j = p" by (rule indice_de)
  have kk: "k < length ws - 1" using k len by simp
  have h: "length ws div 2 = Suc N div 2" using len by simp
  have "length (filter (\<lambda>f. ronda_de f = int k + 1 \<and> ocupa bye p f) (ida_filas bal bye ws)) =
      length (filter (\<lambda>i. fst (pareja ws k i) = ws ! j \<or> snd (pareja ws k i) = ws ! j)
         [0..<Suc N div 2])"
    unfolding ida_ronda[OF kk] h
    by (simp add: fila_en_def ocupa_fila_de j(2))
  also have "\<dots> = 1" by (rule en_ronda_unico[OF len odd d k j(1)])
  finally show ?thesis .
qed

lemma en_ronda_total:
  assumes inv: "\<And>f. P (fila_vuelta (int (length ws) - 1) f) \<longleftrightarrow> P f"
    and base: "\<And>k. k < length ws - 1 \<Longrightarrow>
      length (filter (\<lambda>f. ronda_de f = int k + 1 \<and> P f) (ida_filas bal bye ws)) = 1"
    and r: "1 \<le> r" "r \<le> (if dr then 2 * (int (length ws) - 1) else int (length ws) - 1)"
  shows "length (filter (\<lambda>f. ronda_de f = r \<and> P f) (filas_de dr bal bye ws)) = 1"
proof -
  let ?R = "int (length ws) - 1"
  let ?F = "ida_filas bal bye ws"
  show ?thesis
  proof (cases "r \<le> ?R")
    case True
    define k where "k = nat (r - 1)"
    have k: "k < length ws - 1" "int k + 1 = r" using True r(1) by (auto simp: k_def)
    have uno: "length (filter (\<lambda>f. ronda_de f = r \<and> P f) ?F) = 1"
      using base[OF k(1)] k(2) by simp
    have "\<not> (ronda_de f + ?R = r \<and> P f)" if "f \<in> set ?F" for f
      using ronda_ida_filas(1)[OF that] True by simp
    then have "filter (\<lambda>f. ronda_de f + ?R = r \<and> P f) ?F = []"
      by (simp add: filter_empty_conv)
    then have "length (filter (\<lambda>f. ronda_de f = r \<and> P f) (map (fila_vuelta ?R) ?F)) = 0"
      by (simp add: filter_map comp_def ronda_fila_vuelta inv)
    with uno show ?thesis by (simp add: filas_de_def)
  next
    case False
    then have dr: dr using r(2) by (cases dr) auto
    define k where "k = nat (r - ?R - 1)"
    have k: "k < length ws - 1" "int k + 1 = r - ?R" using False r(2) dr by (auto simp: k_def)
    have "\<not> (ronda_de f = r \<and> P f)" if "f \<in> set ?F" for f
      using ronda_ida_filas(2)[OF that] False by simp
    then have "filter (\<lambda>f. ronda_de f = r \<and> P f) ?F = []"
      by (simp add: filter_empty_conv)
    moreover have "length (filter (\<lambda>f. ronda_de f = r \<and> P f) (map (fila_vuelta ?R) ?F)) = 1"
    proof -
      have "length (filter (\<lambda>f. ronda_de f = r \<and> P f) (map (fila_vuelta ?R) ?F)) =
          length (filter (\<lambda>f. ronda_de f + ?R = r \<and> P f) ?F)"
        by (simp add: filter_map comp_def ronda_fila_vuelta inv)
      also have "(\<lambda>f. ronda_de f + ?R = r \<and> P f) = (\<lambda>f. ronda_de f = int k + 1 \<and> P f)"
        using k(2) by (intro ext) auto
      finally show ?thesis using base[OF k(1)] by simp
    qed
    ultimately show ?thesis using dr by (simp add: filas_de_def)
  qed
qed

lemma length_filter_mono:
  assumes "\<And>f. P f \<Longrightarrow> Q f"
  shows "length (filter P xs) \<le> length (filter Q xs)"
  using assms by (induction xs) auto

text \<open>
  Claim C5.  For a valid input, in every round of the output every participant of the padded
  list (the bye included, whose table is the BYE row) sits at exactly one table.  As labels
  written in the rows: every real participant is a side of exactly one row of the round, and
  no label of the padded list is a side of two rows of a round.
\<close>

theorem una_mesa_por_ronda:
  assumes v: "entrada_valida n names bye"
  shows "\<exists>filas. generar_fixture n names dr bal bye = Inr filas \<and>
           (\<forall>r\<in>{1..rondas_totales n dr}. \<forall>p\<in>set (equipos_de n names bye).
              length (filter (\<lambda>f. ronda_de f = r \<and> ocupa bye p f) filas) = 1) \<and>
           (\<forall>r\<in>{1..rondas_totales n dr}. \<forall>p\<in>set (equipos_de n names bye).
              length (filter (\<lambda>f. ronda_de f = r \<and> figura p f) filas) \<le> 1) \<and>
           (\<forall>r\<in>{1..rondas_totales n dr}. \<forall>p\<in>set (equipos_iniciales n names).
              length (filter (\<lambda>f. ronda_de f = r \<and> figura p f) filas) = 1)"
proof -
  let ?ws = "equipos_de n names bye"
  let ?filas = "filas_de dr bal bye ?ws"
  have ok: "longitud_ok n names" using v by (simp add: entrada_valida_def)
  obtain N where len: "length ?ws = Suc N" and odd: "odd N" by (rule longitud_impar[OF ok])
  have d: "distinct ?ws" by (rule distinct_equipos_de[OF v])
  have T: "rondas_totales n dr = (if dr then 2 * (int (length ?ws) - 1) else int (length ?ws) - 1)"
    by (simp add: rondas_totales_def rondas_de_equipos[OF ok])
  have a: "length (filter (\<lambda>f. ronda_de f = r \<and> ocupa bye p f) ?filas) = 1"
    if r: "r \<in> {1..rondas_totales n dr}" and p: "p \<in> set ?ws" for r p
  proof (rule en_ronda_total)
    show "ocupa bye p (fila_vuelta (int (length ?ws) - 1) f) \<longleftrightarrow> ocupa bye p f" for f
      by (rule ocupa_fila_vuelta)
    show "length (filter (\<lambda>f. ronda_de f = int k + 1 \<and> ocupa bye p f) (ida_filas bal bye ?ws)) = 1"
      if "k < length ?ws - 1" for k
      using that len by (intro ocupa_en_ronda[OF len odd d _ p]) simp
    show "1 \<le> r" using r by simp
    show "r \<le> (if dr then 2 * (int (length ?ws) - 1) else int (length ?ws) - 1)"
      using r unfolding T by simp
  qed
  have b: "length (filter (\<lambda>f. ronda_de f = r \<and> figura p f) ?filas) \<le> 1"
    if r: "r \<in> {1..rondas_totales n dr}" and p: "p \<in> set ?ws" for r p
  proof -
    have "length (filter (\<lambda>f. ronda_de f = r \<and> figura p f) ?filas) \<le>
        length (filter (\<lambda>f. ronda_de f = r \<and> ocupa bye p f) ?filas)"
      by (rule length_filter_mono) (auto dest: figura_ocupa)
    with a[OF r p] show ?thesis by simp
  qed
  have c: "length (filter (\<lambda>f. ronda_de f = r \<and> figura p f) ?filas) = 1"
    if r: "r \<in> {1..rondas_totales n dr}" and p: "p \<in> set (equipos_iniciales n names)" for r p
  proof -
    have pb: "p \<noteq> bye" using v p by (auto simp: entrada_valida_def)
    have pw: "p \<in> set ?ws" using p by (simp add: set_equipos_de)
    show ?thesis using a[OF r pw] by (simp add: ocupa_figura[OF pb])
  qed
  show ?thesis
    unfolding generar_fixture_eq[OF ok] using a b c by simp
qed

theorem una_mesa_por_ronda_witness:
  "entrada_valida 3 None ''DESCANSA'' \<and>
   (\<exists>filas. generar_fixture 3 None True True ''DESCANSA'' = Inr filas \<and>
      (\<forall>r\<in>{1..6}. \<forall>p\<in>set [''E1'', ''E2'', ''E3'', ''DESCANSA''].
         length (filter (\<lambda>f. ronda_de f = r \<and> ocupa ''DESCANSA'' p f) filas) = 1) \<and>
      (\<forall>r\<in>{1..6}. \<forall>p\<in>set [''E1'', ''E2'', ''E3'', ''DESCANSA''].
         length (filter (\<lambda>f. ronda_de f = r \<and> figura p f) filas) \<le> 1) \<and>
      (\<forall>r\<in>{1..6}. \<forall>p\<in>set [''E1'', ''E2'', ''E3''].
         length (filter (\<lambda>f. ronda_de f = r \<and> figura p f) filas) = 1))"
proof -
  have v: "entrada_valida 3 None ''DESCANSA''" by code_simp
  have e: "equipos_de 3 None ''DESCANSA'' = [''E1'', ''E2'', ''E3'', ''DESCANSA'']"
    "equipos_iniciales 3 None = [''E1'', ''E2'', ''E3'']"
    "rondas_totales 3 True = 6"
    by code_simp+
  show ?thesis
    using v una_mesa_por_ronda[OF v, of True True] unfolding e by simp
qed

section \<open>The byes of an odd field\<close>

lemma descansa_fila_de:
  assumes "x \<noteq> bye"
  shows "nota_de (fila_de bal bye r t p) = ''DESCANSA'' \<and> local_de (fila_de bal bye r t p) = x \<longleftrightarrow>
         p = (x, bye) \<or> p = (bye, x)"
  using assms
  by (cases p) (auto simp: fila_de_def nota_de_def local_de_def Let_def)

lemma descansa_una_vez:
  assumes len: "length ws = Suc N" and odd: "odd N" and d: "distinct ws"
    and x: "x \<in> set ws" and b: "bye \<in> set ws" and xb: "x \<noteq> bye"
  shows "length (filter (\<lambda>f. nota_de f = ''DESCANSA'' \<and> local_de f = x) (ida_filas bal bye ws)) = 1"
proof -
  from x len obtain j1 where j1: "j1 \<le> N" "ws ! j1 = x" by (rule indice_de)
  from b len obtain j2 where j2: "j2 \<le> N" "ws ! j2 = bye" by (rule indice_de)
  have jne: "j1 \<noteq> j2" using xb j1(2) j2(2) by auto
  let ?zs = "List.product [0..<N] [0..<Suc N div 2]"
  have "length (filter (\<lambda>f. nota_de f = ''DESCANSA'' \<and> local_de f = x) (ida_filas bal bye ws)) =
      length (filter (\<lambda>z. nota_de (fila_en bal bye ws z) = ''DESCANSA'' \<and>
                            local_de (fila_en bal bye ws z) = x) ?zs)"
    by (simp add: ida_filas_def len filter_map comp_def)
  also have "\<dots> = length (filter (\<lambda>z. pareja ws (fst z) (snd z) = (ws ! j1, ws ! j2) \<or>
                           pareja ws (fst z) (snd z) = (ws ! j2, ws ! j1)) ?zs)"
    by (simp add: fila_en_def descansa_fila_de[OF xb] j1(2) j2(2))
  also have "\<dots> = 1" by (rule pareja_unica[OF len odd d j1(1) j2(1) jne])
  finally show ?thesis .
qed

lemma descansa_en_ronda:
  assumes len: "length ws = Suc N" and odd: "odd N" and d: "distinct ws"
    and k: "k < N" and b: "bye \<in> set ws"
  shows "length (filter (\<lambda>f. ronda_de f = int k + 1 \<and> nota_de f = ''DESCANSA'')
           (ida_filas bal bye ws)) = 1"
proof -
  from b len obtain j where j: "j \<le> N" "ws ! j = bye" by (rule indice_de)
  have kk: "k < length ws - 1" using k len by simp
  have h: "length ws div 2 = Suc N div 2" using len by simp
  have "length (filter (\<lambda>f. ronda_de f = int k + 1 \<and> nota_de f = ''DESCANSA'')
      (ida_filas bal bye ws)) =
      length (filter (\<lambda>i. fst (pareja ws k i) = ws ! j \<or> snd (pareja ws k i) = ws ! j)
         [0..<Suc N div 2])"
    unfolding ida_ronda[OF kk] h
    by (simp add: fila_en_def nota_fila_de j(2))
  also have "\<dots> = 1" by (rule en_ronda_unico[OF len odd d k j(1)])
  finally show ?thesis .
qed

text \<open>
  Claim C2.  For an odd \<open>n\<close> (so \<open>n \<ge> 3\<close>, with the names absent or of length \<open>n\<close>) the
  single round-robin has the rounds 1 to \<open>n\<close>, each with \<open>(n + 1) div 2\<close> rows; and for a
  valid input exactly one row of each round is a BYE row, and every participant is the home
  side of exactly one BYE row of the fixture.
\<close>

theorem fixture_impar:
  assumes ok: "longitud_ok n names" and impar: "n mod 2 = 1"
  shows "\<exists>filas. generar_fixture n names False bal bye = Inr filas \<and>
           set (map ronda_de filas) = {1..n} \<and>
           (\<forall>r\<in>{1..n}. length (filter (\<lambda>f. ronda_de f = r) filas) = nat ((n + 1) div 2)) \<and>
           (entrada_valida n names bye \<longrightarrow>
              (\<forall>r\<in>{1..n}.
                 length (filter (\<lambda>f. ronda_de f = r \<and> nota_de f = ''DESCANSA'') filas) = 1) \<and>
              (\<forall>p\<in>set (equipos_iniciales n names).
                 length (filter (\<lambda>f. nota_de f = ''DESCANSA'' \<and> local_de f = p) filas) = 1))"
proof -
  let ?ws = "equipos_de n names bye"
  let ?ida = "ida_filas bal bye ?ws"
  have n2: "2 \<le> n" using ok by (simp add: longitud_ok_def)
  obtain N where len: "length ?ws = Suc N" and odd: "odd N" by (rule longitud_impar[OF ok])
  have N: "int N = n" using length_equipos_de[OF ok, of bye] len impar by simp
  have bw: "bye \<in> set ?ws" using impar by (simp add: set_equipos_de)
  have R: "rondas_de n = n" and h: "mesas_de n = (n + 1) div 2"
    using impar by (simp_all add: rondas_de_def mesas_de_def)
  have c: "map clave ?ida = List.product [1..n] [1..(n + 1) div 2]"
    using claves_generar[OF ok, of False bal bye]
    by (simp add: filas_de_def rondas_totales_def R h)
  have g: "generar_fixture n names False bal bye = Inr ?ida"
    unfolding generar_fixture_eq[OF ok] by (simp add: filas_de_def)
  have r: "set (map ronda_de ?ida) = {1..n}"
    using rondas_de_claves[OF c] mesas_de_pos[OF n2] h by simp
  have m: "\<forall>r\<in>{1..n}. length (filter (\<lambda>f. ronda_de f = r) ?ida) = nat ((n + 1) div 2)"
    using cuenta_ronda[OF c] by simp
  have b1: "length (filter (\<lambda>f. ronda_de f = r \<and> nota_de f = ''DESCANSA'') ?ida) = 1"
    if v: "entrada_valida n names bye" and "r \<in> {1..n}" for r
  proof -
    have d: "distinct ?ws" by (rule distinct_equipos_de[OF v])
    define k where "k = nat (r - 1)"
    have k: "k < N" "int k + 1 = r" using that N by (auto simp: k_def)
    show ?thesis using descansa_en_ronda[OF len odd d k(1) bw, of bal] k(2) by simp
  qed
  have b2: "length (filter (\<lambda>f. nota_de f = ''DESCANSA'' \<and> local_de f = p) ?ida) = 1"
    if v: "entrada_valida n names bye" and p: "p \<in> set (equipos_iniciales n names)" for p
  proof -
    have d: "distinct ?ws" by (rule distinct_equipos_de[OF v])
    have pb: "p \<noteq> bye" using v p by (auto simp: entrada_valida_def)
    have pw: "p \<in> set ?ws" using p by (simp add: set_equipos_de)
    show ?thesis by (rule descansa_una_vez[OF len odd d pw bw pb])
  qed
  show ?thesis unfolding g using r m b1 b2 by simp
qed

theorem fixture_impar_witness:
  "longitud_ok 5 None \<and> (5::int) mod 2 = 1 \<and> entrada_valida 5 None ''DESCANSA'' \<and>
   (\<exists>filas. generar_fixture 5 None False True ''DESCANSA'' = Inr filas \<and>
      set (map ronda_de filas) = {1..5} \<and>
      (\<forall>r\<in>{1..5}. length (filter (\<lambda>f. ronda_de f = r) filas) = 3) \<and>
      (\<forall>r\<in>{1..5}.
         length (filter (\<lambda>f. ronda_de f = r \<and> nota_de f = ''DESCANSA'') filas) = 1) \<and>
      (\<forall>p\<in>set [''E1'', ''E2'', ''E3'', ''E4'', ''E5''].
         length (filter (\<lambda>f. nota_de f = ''DESCANSA'' \<and> local_de f = p) filas) = 1))"
proof -
  have h: "longitud_ok 5 None" by (simp add: longitud_ok_def)
  have v: "entrada_valida 5 None ''DESCANSA''" by code_simp
  have i: "(5::int) mod 2 = 1" by simp
  have e: "equipos_iniciales 5 None = [''E1'', ''E2'', ''E3'', ''E4'', ''E5'']" by code_simp
  show ?thesis
    using h v i fixture_impar[OF h i, of True "''DESCANSA''"] unfolding e by simp
qed

section \<open>The balance flag\<close>

lemma fila_balance_spec_fila_de:
  "fila_balance_spec (fila_de True bye r t p) (fila_de False bye r t p)"
  by (cases p)
    (auto simp: fila_balance_spec_def fila_de_def ronda_de_def mesa_de_def nota_de_def
      local_de_def visita_de_def Let_def)

lemma fila_balance_ida:
  "r \<le> R \<Longrightarrow> fila_balance R (fila_de True bye r t p) (fila_de False bye r t p)"
  by (cases p)
    (auto simp: fila_balance_def fila_de_def ronda_de_def mesa_de_def nota_de_def
      local_de_def visita_de_def Let_def)

lemma fila_balance_vuelta:
  "1 \<le> r \<Longrightarrow>
   fila_balance R (fila_vuelta R (fila_de True bye r t p)) (fila_vuelta R (fila_de False bye r t p))"
  by (cases p)
    (auto simp: fila_balance_def fila_de_def fila_vuelta_def ronda_de_def mesa_de_def nota_de_def
      local_de_def visita_de_def Let_def)

lemma list_all2_map_mismo:
  "(\<And>z. z \<in> set zs \<Longrightarrow> P (f z) (g z)) \<Longrightarrow> list_all2 P (map f zs) (map g zs)"
  by (simp add: list_all2_map1 list_all2_map2 list_all2_same)

lemma balance_ida:
  "list_all2 (fila_balance (int (length ws) - 1)) (ida_filas True bye ws) (ida_filas False bye ws)"
  unfolding ida_filas_def
  by (rule list_all2_map_mismo) (auto simp: fila_en_def intro!: fila_balance_ida)

lemma balance_spec_ida:
  "list_all2 fila_balance_spec (ida_filas True bye ws) (ida_filas False bye ws)"
  unfolding ida_filas_def
  by (rule list_all2_map_mismo) (simp add: fila_en_def fila_balance_spec_fila_de)

lemma balance_vuelta:
  "list_all2 (fila_balance R)
     (map (fila_vuelta R) (ida_filas True bye ws)) (map (fila_vuelta R) (ida_filas False bye ws))"
  unfolding ida_filas_def map_map
  by (rule list_all2_map_mismo) (simp add: fila_en_def fila_balance_vuelta)

lemma balance_filas_de:
  "list_all2 (fila_balance (int (length ws) - 1)) (filas_de dr True bye ws) (filas_de dr False bye ws)"
  by (simp add: filas_de_def balance_ida balance_vuelta list_all2_appendI)

text \<open>
  Claim C8, as amended.  For every input that passes the validation, the runs with and
  without \<open>balance_home_away\<close> agree place by place on round, table and note and on the two
  sides as a set; a row that comes from an odd round of the first leg has the same
  orientation in both runs, and a match that comes from an even round of the first leg has
  its sides swapped.  For a row of the second leg the round it comes from is its round less
  the number of rounds of the first leg.  For the single round-robin this is the relation the
  specification words.
\<close>

theorem balance_por_ronda_de_ida:
  assumes "longitud_ok n names"
  shows "\<exists>b u. generar_fixture n names dr True bye = Inr b \<and>
           generar_fixture n names dr False bye = Inr u \<and>
           list_all2 (fila_balance (rondas_de n)) b u \<and>
           (dr \<or> list_all2 fila_balance_spec b u)"
proof -
  let ?ws = "equipos_de n names bye"
  have b: "generar_fixture n names dr True bye = Inr (filas_de dr True bye ?ws)"
    by (rule generar_fixture_eq[OF assms])
  have u: "generar_fixture n names dr False bye = Inr (filas_de dr False bye ?ws)"
    by (rule generar_fixture_eq[OF assms])
  have r: "list_all2 (fila_balance (rondas_de n)) (filas_de dr True bye ?ws) (filas_de dr False bye ?ws)"
    using balance_filas_de[of ?ws dr bye] by (simp add: rondas_de_equipos[OF assms])
  have s: "dr \<or> list_all2 fila_balance_spec (filas_de dr True bye ?ws) (filas_de dr False bye ?ws)"
    by (simp add: filas_de_def balance_spec_ida)
  show ?thesis unfolding b u using r s by simp
qed

theorem balance_por_ronda_de_ida_witness:
  "longitud_ok 4 None \<and>
   generar_fixture 4 None True True ''DESCANSA'' =
     Inr [(1, 1, ''E1'', ''E4'', ''''), (1, 2, ''E2'', ''E3'', ''''),
        (2, 1, ''E3'', ''E1'', ''''), (2, 2, ''E2'', ''E4'', ''''),
        (3, 1, ''E1'', ''E2'', ''''), (3, 2, ''E3'', ''E4'', ''''),
        (4, 1, ''E4'', ''E1'', ''''), (4, 2, ''E3'', ''E2'', ''''),
        (5, 1, ''E1'', ''E3'', ''''), (5, 2, ''E4'', ''E2'', ''''),
        (6, 1, ''E2'', ''E1'', ''''), (6, 2, ''E4'', ''E3'', '''')] \<and>
   generar_fixture 4 None True False ''DESCANSA'' =
     Inr [(1, 1, ''E1'', ''E4'', ''''), (1, 2, ''E2'', ''E3'', ''''),
        (2, 1, ''E1'', ''E3'', ''''), (2, 2, ''E4'', ''E2'', ''''),
        (3, 1, ''E1'', ''E2'', ''''), (3, 2, ''E3'', ''E4'', ''''),
        (4, 1, ''E4'', ''E1'', ''''), (4, 2, ''E3'', ''E2'', ''''),
        (5, 1, ''E3'', ''E1'', ''''), (5, 2, ''E2'', ''E4'', ''''),
        (6, 1, ''E2'', ''E1'', ''''), (6, 2, ''E4'', ''E3'', '''')] \<and>
   list_all2 (fila_balance 3)
     [(1, 1, ''E1'', ''E4'', ''''), (1, 2, ''E2'', ''E3'', ''''),
        (2, 1, ''E3'', ''E1'', ''''), (2, 2, ''E2'', ''E4'', ''''),
        (3, 1, ''E1'', ''E2'', ''''), (3, 2, ''E3'', ''E4'', ''''),
        (4, 1, ''E4'', ''E1'', ''''), (4, 2, ''E3'', ''E2'', ''''),
        (5, 1, ''E1'', ''E3'', ''''), (5, 2, ''E4'', ''E2'', ''''),
        (6, 1, ''E2'', ''E1'', ''''), (6, 2, ''E4'', ''E3'', '''')]
     [(1, 1, ''E1'', ''E4'', ''''), (1, 2, ''E2'', ''E3'', ''''),
        (2, 1, ''E1'', ''E3'', ''''), (2, 2, ''E4'', ''E2'', ''''),
        (3, 1, ''E1'', ''E2'', ''''), (3, 2, ''E3'', ''E4'', ''''),
        (4, 1, ''E4'', ''E1'', ''''), (4, 2, ''E3'', ''E2'', ''''),
        (5, 1, ''E3'', ''E1'', ''''), (5, 2, ''E2'', ''E4'', ''''),
        (6, 1, ''E2'', ''E1'', ''''), (6, 2, ''E4'', ''E3'', '''')] \<and>
   generar_fixture 4 None False True ''DESCANSA'' =
     Inr [(1, 1, ''E1'', ''E4'', ''''), (1, 2, ''E2'', ''E3'', ''''),
        (2, 1, ''E3'', ''E1'', ''''), (2, 2, ''E2'', ''E4'', ''''),
        (3, 1, ''E1'', ''E2'', ''''), (3, 2, ''E3'', ''E4'', '''')] \<and>
   generar_fixture 4 None False False ''DESCANSA'' =
     Inr [(1, 1, ''E1'', ''E4'', ''''), (1, 2, ''E2'', ''E3'', ''''),
        (2, 1, ''E1'', ''E3'', ''''), (2, 2, ''E4'', ''E2'', ''''),
        (3, 1, ''E1'', ''E2'', ''''), (3, 2, ''E3'', ''E4'', '''')] \<and>
   list_all2 fila_balance_spec
     [(1, 1, ''E1'', ''E4'', ''''), (1, 2, ''E2'', ''E3'', ''''),
        (2, 1, ''E3'', ''E1'', ''''), (2, 2, ''E2'', ''E4'', ''''),
        (3, 1, ''E1'', ''E2'', ''''), (3, 2, ''E3'', ''E4'', '''')]
     [(1, 1, ''E1'', ''E4'', ''''), (1, 2, ''E2'', ''E3'', ''''),
        (2, 1, ''E1'', ''E3'', ''''), (2, 2, ''E4'', ''E2'', ''''),
        (3, 1, ''E1'', ''E2'', ''''), (3, 2, ''E3'', ''E4'', '''')]"
proof -
  have h: "longitud_ok 4 None" by (simp add: longitud_ok_def)
  have r: "rondas_de 4 = 3" by (simp add: rondas_de_def)
  have b2: "generar_fixture 4 None True True ''DESCANSA'' =
     Inr [(1, 1, ''E1'', ''E4'', ''''), (1, 2, ''E2'', ''E3'', ''''),
        (2, 1, ''E3'', ''E1'', ''''), (2, 2, ''E2'', ''E4'', ''''),
        (3, 1, ''E1'', ''E2'', ''''), (3, 2, ''E3'', ''E4'', ''''),
        (4, 1, ''E4'', ''E1'', ''''), (4, 2, ''E3'', ''E2'', ''''),
        (5, 1, ''E1'', ''E3'', ''''), (5, 2, ''E4'', ''E2'', ''''),
        (6, 1, ''E2'', ''E1'', ''''), (6, 2, ''E4'', ''E3'', '''')]"
    by code_simp
  have u2: "generar_fixture 4 None True False ''DESCANSA'' =
     Inr [(1, 1, ''E1'', ''E4'', ''''), (1, 2, ''E2'', ''E3'', ''''),
        (2, 1, ''E1'', ''E3'', ''''), (2, 2, ''E4'', ''E2'', ''''),
        (3, 1, ''E1'', ''E2'', ''''), (3, 2, ''E3'', ''E4'', ''''),
        (4, 1, ''E4'', ''E1'', ''''), (4, 2, ''E3'', ''E2'', ''''),
        (5, 1, ''E3'', ''E1'', ''''), (5, 2, ''E2'', ''E4'', ''''),
        (6, 1, ''E2'', ''E1'', ''''), (6, 2, ''E4'', ''E3'', '''')]"
    by code_simp
  have b1: "generar_fixture 4 None False True ''DESCANSA'' =
     Inr [(1, 1, ''E1'', ''E4'', ''''), (1, 2, ''E2'', ''E3'', ''''),
        (2, 1, ''E3'', ''E1'', ''''), (2, 2, ''E2'', ''E4'', ''''),
        (3, 1, ''E1'', ''E2'', ''''), (3, 2, ''E3'', ''E4'', '''')]"
    by code_simp
  have u1: "generar_fixture 4 None False False ''DESCANSA'' =
     Inr [(1, 1, ''E1'', ''E4'', ''''), (1, 2, ''E2'', ''E3'', ''''),
        (2, 1, ''E1'', ''E3'', ''''), (2, 2, ''E4'', ''E2'', ''''),
        (3, 1, ''E1'', ''E2'', ''''), (3, 2, ''E3'', ''E4'', '''')]"
    by code_simp
  show ?thesis
    using h balance_por_ronda_de_ida[OF h, of True "''DESCANSA''"]
      balance_por_ronda_de_ida[OF h, of False "''DESCANSA''"]
    unfolding r b2 u2 b1 u1 by simp
qed

text \<open>
  Claim C8 as the specification states it fails for the double round-robin of two
  participants: round 2 is even and holds a match, and both runs write it the same way.
\<close>

theorem balance_spec_counterexample:
  "entrada_valida 2 None ''DESCANSA'' \<and>
   generar_fixture 2 None True True ''DESCANSA'' =
     Inr [(1, 1, ''E1'', ''E2'', ''''), (2, 1, ''E2'', ''E1'', '''')] \<and>
   generar_fixture 2 None True False ''DESCANSA'' =
     Inr [(1, 1, ''E1'', ''E2'', ''''), (2, 1, ''E2'', ''E1'', '''')] \<and>
   \<not> list_all2 fila_balance_spec
       [(1, 1, ''E1'', ''E2'', ''''), (2, 1, ''E2'', ''E1'', '''')]
       [(1, 1, ''E1'', ''E2'', ''''), (2, 1, ''E2'', ''E1'', '''')]"
proof -
  have v: "entrada_valida 2 None ''DESCANSA''" by code_simp
  have b: "generar_fixture 2 None True True ''DESCANSA'' =
     Inr [(1, 1, ''E1'', ''E2'', ''''), (2, 1, ''E2'', ''E1'', '''')]" by code_simp
  have u: "generar_fixture 2 None True False ''DESCANSA'' =
     Inr [(1, 1, ''E1'', ''E2'', ''''), (2, 1, ''E2'', ''E1'', '''')]" by code_simp
  have n: "\<not> list_all2 fila_balance_spec
       [(1, 1, ''E1'', ''E2'', ''''), (2, 1, ''E2'', ''E1'', '''')]
       [(1, 1, ''E1'', ''E2'', ''''), (2, 1, ''E2'', ''E1'', '''')]"
    by (simp add: fila_balance_spec_def ronda_de_def mesa_de_def nota_de_def local_de_def
        visita_de_def)
  show ?thesis using v b u n by simp
qed

section \<open>The caller's list\<close>

lemma equipos_en_almacen:
  "(h @ [xs])[length h := ys] = h @ [ys]" "(h @ [xs]) ! length h = xs"
  by simp_all

text \<open>
  Claim C9.  When \<^verbatim>\<open>names\<close> is a list of the store, after the call (whether it returns
  rows or raises) every list that was in the store, the caller's among them, holds what it
  held before; and the result is that of \<open>generar_fixture\<close> on the contents of the list.
\<close>

theorem names_intacto:
  assumes "a < length h"
  shows "take (length h) (fst (generar_fixture_ref h n (Some a) dr bal bye)) = h \<and>
         fst (generar_fixture_ref h n (Some a) dr bal bye) ! a = h ! a \<and>
         snd (generar_fixture_ref h n (Some a) dr bal bye) =
           generar_fixture n (Some (h ! a)) dr bal bye"
proof -
  have t: "take (length h) (fst (generar_fixture_ref h n (Some a) dr bal bye)) = h"
    by (simp add: generar_fixture_ref_def nueva_lista_def append_en_def Let_def
        equipos_en_almacen)
  have "fst (generar_fixture_ref h n (Some a) dr bal bye) ! a =
      take (length h) (fst (generar_fixture_ref h n (Some a) dr bal bye)) ! a"
    using assms by simp
  then have s: "fst (generar_fixture_ref h n (Some a) dr bal bye) ! a = h ! a"
    unfolding t .
  have r: "snd (generar_fixture_ref h n (Some a) dr bal bye) =
      generar_fixture n (Some (h ! a)) dr bal bye"
    by (simp add: generar_fixture_ref_def generar_fixture_def equipos_iniciales_def
        nueva_lista_def append_en_def Let_def equipos_en_almacen nth_append)
  show ?thesis using t s r by simp
qed

theorem names_intacto_witness:
  "(0::nat) < length [[''A'', ''B'', ''C'']] \<and>
   take 1 (fst (generar_fixture_ref [[''A'', ''B'', ''C'']] 3 (Some 0) False True ''DESCANSA'')) =
     [[''A'', ''B'', ''C'']] \<and>
   fst (generar_fixture_ref [[''A'', ''B'', ''C'']] 3 (Some 0) False True ''DESCANSA'') ! 0 =
     [''A'', ''B'', ''C''] \<and>
   snd (generar_fixture_ref [[''A'', ''B'', ''C'']] 3 (Some 0) False True ''DESCANSA'') =
     generar_fixture 3 (Some [''A'', ''B'', ''C'']) False True ''DESCANSA''"
proof -
  have h: "(0::nat) < length [[''A'', ''B'', ''C'']]" by simp
  show ?thesis
    using h names_intacto[OF h, of 3 False True "''DESCANSA''"] by simp
qed

lemma almacen_despues:
  "fst (generar_fixture_ref [[''A'', ''B'', ''C'']] 3 (Some 0) False True ''DESCANSA'') =
     [[''A'', ''B'', ''C''], [''A'', ''B'', ''C'', ''DESCANSA''],
      [''A'', ''B'', ''C'', ''DESCANSA'']]"
  by code_simp

section \<open>The note of a BYE row and the bye label\<close>
























lemma salida_con_otra_etiqueta:
  "generar_fixture 3 None False True ''LIBRE'' =
     Inr [(1, 1, ''E1'', '''', ''DESCANSA''), (1, 2, ''E2'', ''E3'', ''''),
          (2, 1, ''E3'', ''E1'', ''''), (2, 2, ''E2'', '''', ''DESCANSA''),
          (3, 1, ''E1'', ''E2'', ''''), (3, 2, ''E3'', '''', ''DESCANSA'')]"
  by code_simp

end
